theory Spec2Isabelle
  imports Complex_Main "HOL-Library.Word" "HOL-Library.Sublist"
begin

unbundle bit_operations_syntax

section \<open>Huemelody: the control core of the colour-sensing device\<close>

text \<open>
  A shallow embedding of \<^verbatim>\<open>src/src/Huemelody.ino\<close>: the button handler, the rotary
  encoder handler, the colour classification, the collection tracker, the playback
  requests, the mode switch and the main loop. The sketch keeps its state in global
  variables; here they are the fields of one record that every function takes and
  returns. Calls to the peripherals (audio, SD card, LEDs) are recorded, in order, in the
  field \<open>events\<close>; what the peripherals answer is an input of the tick.
\<close>

subsection \<open>Constants\<close>

definition MODE_SWITCH_PRESS_DURATION :: "32 word" where [simp]:
  "MODE_SWITCH_PRESS_DURATION = 3000"

definition SLEEP_PRESS_DURATION :: "32 word" where [simp]:
  "SLEEP_PRESS_DURATION = 5000"

definition ROTATION_DEBOUNCE :: "32 word" where [simp]:
  "ROTATION_DEBOUNCE = 10"

definition TRACK_NAVIGATION_DEBOUNCE :: "32 word" where [simp]:
  "TRACK_NAVIGATION_DEBOUNCE = 100"

definition MIN_VOLUME :: int where [simp]:
  "MIN_VOLUME = 0"

definition MAX_VOLUME :: int where [simp]:
  "MAX_VOLUME = 21"

definition VOLUME_STEP :: int where [simp]:
  "VOLUME_STEP = 1"

definition VOLUME_DISPLAY_DURATION :: "32 word" where [simp]:
  "VOLUME_DISPLAY_DURATION = 1000"

definition COLOR_COUNT_THRESHOLD :: "8 word" where [simp]:
  "COLOR_COUNT_THRESHOLD = 5"

definition COLOR_FAMILY_COUNT :: int where [simp]:
  "COLOR_FAMILY_COUNT = 16"

subsection \<open>Data\<close>

datatype OperationMode = COLOR_RECOGNITION | PAINTER_COLLECTION

record ColorThreshold =
  rMin :: "8 word"
  rMax :: "8 word"
  gMin :: "8 word"
  gMax :: "8 word"
  bMin :: "8 word"
  bMax :: "8 word"
  colorId :: string
  audioFile :: string

record PainterColor =
  rMinP :: "8 word"
  rMaxP :: "8 word"
  gMinP :: "8 word"
  gMaxP :: "8 word"
  bMinP :: "8 word"
  bMaxP :: "8 word"
  painterId :: string
  colorIndex :: "8 word"

text \<open>
  The calls the device makes, as the claims speak of them. The first five are the intents
  of the input handlers: the sleep sequence, \<^verbatim>\<open>switchMode()\<close>, the toggle of
  \<^verbatim>\<open>isColorDetectionEnabled\<close>, \<^verbatim>\<open>audio.setVolume\<close> and track navigation. The next
  four are playback: \<^verbatim>\<open>audio.stopSong()\<close>, a call of \<^verbatim>\<open>playTrack\<close> with its file
  name, \<^verbatim>\<open>audio.connecttoFS\<close> with its file name, \<^verbatim>\<open>audio.loop()\<close>. The rest is
  what the LEDs and the sensor are told.
\<close>

datatype event =
    EvSleep
  | EvModeSwitch
  | EvToggle
  | EvSetVolume int
  | EvTrackDelta int
  | EvStopSong
  | EvPlayTrack string
  | EvConnect string
  | EvAudioLoop
  | EvBlink nat
  | EvDisplayVolume int
  | EvRestoreLeds
  | EvShowColor
  | EvSleepFade
  | EvSensorDisable

text \<open>
  The global variables of the sketch. \<open>lastButtonState\<close> is \<open>True\<close> for \<^verbatim>\<open>HIGH\<close>
  (released; the button is active-low). \<open>sampleR\<close>, \<open>sampleG\<close>, \<open>sampleB\<close> are the
  globals \<^verbatim>\<open>r\<close>, \<^verbatim>\<open>g\<close>, \<^verbatim>\<open>b\<close>. \<open>lastEncoded\<close>, \<open>lastDir\<close> and
  \<open>validRotations\<close> are the static locals of \<^verbatim>\<open>handleEncoder\<close>. Times are
  \<^verbatim>\<open>unsigned long\<close>, 32 bits on the ESP32, and wrap around. \<open>asleep\<close> is set by
  \<^verbatim>\<open>esp_deep_sleep_start()\<close>, which does not return. \<open>fault\<close> is set where the sketch
  would write outside the storage of an array, which C++ leaves undefined; the model
  leaves the array as it is there.
\<close>

record device =
  currentMode :: OperationMode
  isColorDetectionEnabled :: bool
  isLooping :: bool
  currentPlayingFile :: string
  currentVolume :: int
  isShowingVolume :: bool
  volumeDisplayStartTime :: "32 word"
  lastButtonState :: bool
  buttonPressStartTime :: "32 word"
  isLongPressing :: bool
  sleepPressStartTime :: "32 word"
  isSleepPressing :: bool
  isEncoderPressed :: bool
  volumeAdjustedWhilePressed :: bool
  lastRotationTime :: "32 word"
  lastTrackNavigationTime :: "32 word"
  colorCounters :: "8 word list"
  painterCollectionStatus :: "bool list list"
  lastEncoded :: "8 word"
  lastDir :: int
  validRotations :: int
  sampleR :: real
  sampleG :: real
  sampleB :: real
  asleep :: bool
  fault :: bool
  events :: "event list"

text \<open>
  What one iteration of \<^verbatim>\<open>loop()\<close> reads from outside: the button line (\<open>True\<close> is
  \<^verbatim>\<open>HIGH\<close>), the two encoder phases, \<^verbatim>\<open>millis()\<close> as read by \<^verbatim>\<open>handleButton\<close>, by
  \<^verbatim>\<open>handleEncoder\<close> and by \<^verbatim>\<open>loop\<close> itself (each handler reads the clock several
  times with no delay in between; the model takes one reading per handler), the
  calibrated colour sample that \<^verbatim>\<open>readColor\<close> would store, the answers of
  \<^verbatim>\<open>SD.exists\<close> and \<^verbatim>\<open>audio.connecttoFS\<close> for a file name, and the answers of the two
  calls of \<^verbatim>\<open>audio.isRunning()\<close> in \<^verbatim>\<open>loop\<close>.
\<close>

record tick_in =
  button :: bool
  pinA :: bool
  pinB :: bool
  nowButton :: "32 word"
  nowEncoder :: "32 word"
  nowLoop :: "32 word"
  sensed :: "real \<times> real \<times> real"
  sdExists :: "string \<Rightarrow> bool"
  connectOk :: "string \<Rightarrow> bool"
  running1 :: bool
  running2 :: bool

text \<open>
  The static tables and the two string helpers of \<^verbatim>\<open>playAudio\<close> are not in the
  repository's files: \<^verbatim>\<open>colorThresholds\<close>, the six painter tables,
  \<^verbatim>\<open>getBaseColorName\<close> and \<^verbatim>\<open>getColorFamilyIndex\<close> are parameters.
\<close>

record config =
  colorThresholds :: "ColorThreshold list"
  daliColors :: "PainterColor list"
  goghColors :: "PainterColor list"
  munchColors :: "PainterColor list"
  picassoColors :: "PainterColor list"
  seuratColors :: "PainterColor list"
  vinciColors :: "PainterColor list"
  getBaseColorName :: "string \<Rightarrow> string"
  getColorFamilyIndex :: "string \<Rightarrow> int"

definition emit :: "event \<Rightarrow> device \<Rightarrow> device" where
  "emit e s = s\<lparr>events := events s @ [e]\<rparr>"

subsection \<open>Mode management and visual feedback\<close>

definition resetAllPainterCollections :: "device \<Rightarrow> device" where
  "resetAllPainterCollections s =
     s\<lparr>painterCollectionStatus := replicate 6 (replicate 5 False)\<rparr>"

definition blinkLEDs :: "nat \<Rightarrow> device \<Rightarrow> device" where
  "blinkLEDs n s = emit (EvBlink n) s"

definition switchMode :: "device \<Rightarrow> device" where
  "switchMode s =
     (let s0 = emit EvModeSwitch s;
          s1 = emit EvStopSong s0;
          s2 = s1\<lparr>isLooping := False, currentPlayingFile := []\<rparr>;
          s3 = s2\<lparr>currentMode :=
                 (if currentMode s2 = COLOR_RECOGNITION then PAINTER_COLLECTION
                  else COLOR_RECOGNITION)\<rparr>;
          s4 = s3\<lparr>colorCounters := replicate 16 0\<rparr>;
          s5 = blinkLEDs (if currentMode s4 = COLOR_RECOGNITION then 1 else 2) s4
      in if currentMode s5 = PAINTER_COLLECTION then resetAllPainterCollections s5 else s5)"

definition displayVolumeOnLeds :: "32 word \<Rightarrow> device \<Rightarrow> device" where
  "displayVolumeOnLeds now s =
     (let s1 = (if \<not> isShowingVolume s then s\<lparr>isShowingVolume := True\<rparr> else s);
          s2 = emit (EvDisplayVolume (currentVolume s1)) s1
      in s2\<lparr>volumeDisplayStartTime := now\<rparr>)"

definition restoreOriginalLeds :: "device \<Rightarrow> device" where
  "restoreOriginalLeds s =
     (if isShowingVolume s then (emit EvRestoreLeds s)\<lparr>isShowingVolume := False\<rparr> else s)"

subsection \<open>Audio playback\<close>

text \<open>
  \<^verbatim>\<open>snprintf(currentPlayingFile, sizeof(currentPlayingFile), ...)\<close> and the
  \<^verbatim>\<open>strncpy\<close> of \<^verbatim>\<open>playTrack\<close> keep at most 31 characters of the name: the buffer
  has 32 bytes.
\<close>

definition fitName :: "string \<Rightarrow> string" where
  "fitName f = take 31 f"

definition playTrack :: "tick_in \<Rightarrow> string \<Rightarrow> device \<Rightarrow> device" where
  "playTrack i filename s =
     (let s0 = emit (EvPlayTrack filename) s in
      if \<not> sdExists i filename then s0
      else
        (let s1 = emit EvStopSong s0;
             s2 = s1\<lparr>currentPlayingFile := fitName filename\<rparr>;
             s3 = emit (EvConnect (currentPlayingFile s2)) s2
         in if \<not> connectOk i (currentPlayingFile s2) then s3\<lparr>isLooping := False\<rparr>
            else
              (let s4 = s3\<lparr>isLooping := True\<rparr>
               in if currentMode s4 = PAINTER_COLLECTION
                  then resetAllPainterCollections s4 else s4)))"

text \<open>
  \<^verbatim>\<open>playAudio\<close>. The family index comes from \<^verbatim>\<open>getColorFamilyIndex\<close>; the
  array \<^verbatim>\<open>colorCounters\<close> has \<^verbatim>\<open>COLOR_FAMILY_COUNT\<close> entries of type
  \<^verbatim>\<open>uint8_t\<close>, so the increment wraps at 256. With an index beyond the array the
  sketch would write outside it: the model sets \<open>fault\<close> and ends the call there.
  \<^verbatim>\<open>playTrack\<close> is called with the buffer \<^verbatim>\<open>currentPlayingFile\<close> itself.

  The base name is held in \<^verbatim>\<open>char baseColor[10]\<close>, which \<^verbatim>\<open>getBaseColorName\<close>
  fills given \<^verbatim>\<open>sizeof(baseColor)\<close>: the buffer keeps at most 9 characters of the
  name.
\<close>

definition fitBase :: "string \<Rightarrow> string" where
  "fitBase b = take 9 b"

definition playAudio :: "config \<Rightarrow> tick_in \<Rightarrow> string \<Rightarrow> device \<Rightarrow> device" where
  "playAudio cfg i colorName s =
     (let baseColor = fitBase (getBaseColorName cfg colorName);
          colorIdx = getColorFamilyIndex cfg colorName
      in if currentMode s = COLOR_RECOGNITION \<and> colorIdx \<ge> 0 then
           (if colorIdx < COLOR_FAMILY_COUNT then
              (let k = nat colorIdx;
                   c = colorCounters s ! k + 1;
                   s1 = (if c \<ge> COLOR_COUNT_THRESHOLD
                         then s\<lparr>colorCounters := (colorCounters s)[k := 0],
                                currentPlayingFile := fitName (''/'' @ baseColor @ ''X.mp3'')\<rparr>
                         else s\<lparr>colorCounters := (colorCounters s)[k := c],
                                currentPlayingFile := fitName (''/'' @ colorName @ ''.mp3'')\<rparr>)
               in playTrack i (currentPlayingFile s1) s1)
            else s\<lparr>fault := True\<rparr>)
         else
           (let s1 = s\<lparr>currentPlayingFile := fitName (''/'' @ colorName @ ''.mp3'')\<rparr>
            in playTrack i (currentPlayingFile s1) s1))"

subsection \<open>Colour detection\<close>

definition inRange :: "real \<Rightarrow> 8 word \<Rightarrow> 8 word \<Rightarrow> bool" where
  "inRange x lo hi = (x \<ge> real (unat lo) \<and> x \<le> real (unat hi))"

fun checkColor :: "config \<Rightarrow> tick_in \<Rightarrow> ColorThreshold list \<Rightarrow> device \<Rightarrow> device" where
  "checkColor cfg i [] s = s"
| "checkColor cfg i (t # ts) s =
     (if rMin t = 0 \<and> rMax t = 0 then checkColor cfg i ts s
      else if inRange (sampleR s) (rMin t) (rMax t) \<and>
              inRange (sampleG s) (gMin t) (gMax t) \<and>
              inRange (sampleB s) (bMin t) (bMax t)
           then playAudio cfg i (audioFile t) s
           else checkColor cfg i ts s)"

definition painterIndexOf :: "string \<Rightarrow> int" where
  "painterIndexOf p =
     (if p = ''Dali'' then 0
      else if p = ''Gogh'' then 1
      else if p = ''Munch'' then 2
      else if p = ''Picasso'' then 3
      else if p = ''Seurat'' then 4
      else if p = ''Vinci'' then 5
      else - 1)"

text \<open>
  The write \<^verbatim>\<open>painterCollectionStatus[painterIndex][t.colorIndex - 1] = true\<close> of
  \<^verbatim>\<open>checkPainterColor\<close>. The array is \<^verbatim>\<open>bool painterCollectionStatus[6][5]\<close>, one
  block of 30 bytes, row after row, and the write goes to the byte at offset
  \<open>5 * painterIndex + colorIndex - 1\<close> of that block. With \<^verbatim>\<open>colorIndex\<close> from 1 to 5
  that is a cell of the painter's own row; with another \<^verbatim>\<open>colorIndex\<close> it is a cell
  of a neighbouring row. Outside the block the model sets \<open>fault\<close>.
\<close>

definition markCollected :: "nat \<Rightarrow> 8 word \<Rightarrow> device \<Rightarrow> device" where
  "markCollected p ci s =
     (let off = 5 * int p + (int (unat ci) - 1) in
      if 0 \<le> off \<and> off < 30
      then (let row = nat off div 5; col = nat off mod 5
            in s\<lparr>painterCollectionStatus :=
                   (painterCollectionStatus s)[row := (painterCollectionStatus s ! row)[col := True]]\<rparr>)
      else s\<lparr>fault := True\<rparr>)"

fun checkPainterColor :: "PainterColor list \<Rightarrow> device \<Rightarrow> device" where
  "checkPainterColor [] s = s"
| "checkPainterColor (t # ts) s =
     (if inRange (sampleR s) (rMinP t) (rMaxP t) \<and>
         inRange (sampleG s) (gMinP t) (gMaxP t) \<and>
         inRange (sampleB s) (bMinP t) (bMaxP t)
      then (let painterIndex = painterIndexOf (painterId t) in
            if painterIndex \<ge> 0 then markCollected (nat painterIndex) (colorIndex t) s
            else checkPainterColor ts s)
      else checkPainterColor ts s)"

definition painterNames :: "string list" where
  "painterNames = [''P_Dali'', ''P_Gogh'', ''P_Munch'', ''P_Picasso'', ''P_Seurat'', ''P_Vinci'']"

definition rowComplete :: "bool list list \<Rightarrow> nat \<Rightarrow> bool" where
  "rowComplete grid painter = list_all (\<lambda>c. grid ! painter ! c) [0..<5]"

text \<open>The body of the loop over the six painters in \<^verbatim>\<open>checkPainterCompletion\<close>.\<close>

definition completionStep :: "config \<Rightarrow> tick_in \<Rightarrow> nat \<Rightarrow> device \<Rightarrow> device" where
  "completionStep cfg i painter s =
     (if rowComplete (painterCollectionStatus s) painter then
        (let s1 = blinkLEDs 2 s;
             s2 = playAudio cfg i (painterNames ! painter) s1;
             s3 = s2\<lparr>isColorDetectionEnabled := False\<rparr>
         in s3\<lparr>painterCollectionStatus :=
                 (painterCollectionStatus s3)[painter := replicate 5 False]\<rparr>)
      else s)"

definition checkPainterCompletion :: "config \<Rightarrow> tick_in \<Rightarrow> device \<Rightarrow> device" where
  "checkPainterCompletion cfg i s = fold (completionStep cfg i) [0..<6] s"

text \<open>
  Modelled from the spec: \<^verbatim>\<open>checkColorAndPlayAudio()\<close> is called by \<^verbatim>\<open>handleButton\<close>
  and is not in the repository's files. The spec: turning sensing off in Detection mode
  "performs one final classification pass so the last-seen color still yields audio
  feedback before going idle".
\<close>

definition checkColorAndPlayAudio :: "config \<Rightarrow> tick_in \<Rightarrow> device \<Rightarrow> device" where
  "checkColorAndPlayAudio cfg i s = checkColor cfg i (colorThresholds cfg) s"

text \<open>
  Modelled from the spec: \<^verbatim>\<open>playNextTrack()\<close> and \<^verbatim>\<open>playPreviousTrack()\<close> are called
  by \<^verbatim>\<open>handleEncoder\<close> and are not in the repository's files. The spec names only the
  intent they stand for, a "track delta" of the rotate-only gesture.
\<close>

definition playNextTrack :: "device \<Rightarrow> device" where
  "playNextTrack s = emit (EvTrackDelta 1) s"

definition playPreviousTrack :: "device \<Rightarrow> device" where
  "playPreviousTrack s = emit (EvTrackDelta (- 1)) s"

subsection \<open>Power management\<close>

definition prepareForSleep :: "device \<Rightarrow> device" where
  "prepareForSleep s = emit EvSensorDisable (emit EvStopSong (emit EvSleepFade s))"

definition enterDeepSleep :: "device \<Rightarrow> device" where
  "enterDeepSleep s = s\<lparr>asleep := True\<rparr>"

subsection \<open>User interface\<close>

text \<open>
  \<^verbatim>\<open>handleButton\<close>. The sleep sequence does not return, so nothing after it runs: the
  state it leaves is the result, with \<open>asleep\<close> set.
\<close>

definition handleButton :: "config \<Rightarrow> tick_in \<Rightarrow> device \<Rightarrow> device" where
  "handleButton cfg i s =
     (let currentButtonState = button i;
          now = nowButton i;
          s1 = (if \<not> currentButtonState \<and> lastButtonState s
                then s\<lparr>buttonPressStartTime := now, isLongPressing := True,
                       sleepPressStartTime := now, isSleepPressing := True,
                       isEncoderPressed := True, volumeAdjustedWhilePressed := False\<rparr>
                else s)
      in if isSleepPressing s1 \<and> \<not> currentButtonState \<and>
            now - sleepPressStartTime s1 \<ge> SLEEP_PRESS_DURATION
         then enterDeepSleep (prepareForSleep (emit EvSleep s1))
         else
           (let s2 = (if isLongPressing s1 \<and> \<not> currentButtonState \<and>
                         now - buttonPressStartTime s1 \<ge> MODE_SWITCH_PRESS_DURATION
                      then (if \<not> volumeAdjustedWhilePressed s1 then switchMode s1 else s1)
                             \<lparr>isLongPressing := False\<rparr>
                      else s1);
                s3 = (if currentButtonState \<and> \<not> lastButtonState s2 then
                        (let a = s2\<lparr>isEncoderPressed := False\<rparr>;
                             b = (if now - buttonPressStartTime a < MODE_SWITCH_PRESS_DURATION \<and>
                                     \<not> volumeAdjustedWhilePressed a then
                                    (let t0 = emit EvToggle
                                                (a\<lparr>isColorDetectionEnabled :=
                                                      \<not> isColorDetectionEnabled a\<rparr>);
                                         t1 = (if currentMode t0 = PAINTER_COLLECTION
                                               then resetAllPainterCollections t0 else t0)
                                     in if \<not> isColorDetectionEnabled t1 then
                                          (let t2 = emit EvShowColor t1
                                           in if currentMode t2 = COLOR_RECOGNITION
                                              then checkColorAndPlayAudio cfg i t2 else t2)
                                        else emit EvStopSong (t1\<lparr>isLooping := False\<rparr>))
                                  else a)
                         in b\<lparr>volumeAdjustedWhilePressed := False, isLongPressing := False,
                               isSleepPressing := False\<rparr>)
                      else s2)
            in s3\<lparr>lastButtonState := currentButtonState\<rparr>))"

text \<open>
  The state table of \<^verbatim>\<open>handleEncoder\<close>: the previous and the current two-bit phase
  make a four-bit code; four codes are clockwise (1), four are counter-clockwise (-1).
  The counter \<^verbatim>\<open>validRotations\<close> is an \<^verbatim>\<open>int\<close> of the sketch; the model counts in
  \<open>int\<close> without a bound (it would take 2^31 unanswered readings to overflow).
\<close>

definition decodeDir :: "8 word \<Rightarrow> 8 word \<Rightarrow> int" where
  "decodeDir lastE encoded =
     (let sum = push_bit 2 lastE OR encoded in
      if sum = 0b1101 \<or> sum = 0b0100 \<or> sum = 0b0010 \<or> sum = 0b1011 then 1
      else if sum = 0b1110 \<or> sum = 0b0111 \<or> sum = 0b0001 \<or> sum = 0b1000 then - 1
      else 0)"

definition readEncoded :: "tick_in \<Rightarrow> 8 word" where
  "readEncoded i =
     (let MSB = of_bool (pinA i) :: 8 word;
          LSB = of_bool (pinB i) :: 8 word
      in push_bit 1 MSB OR LSB)"

definition handleEncoder :: "tick_in \<Rightarrow> device \<Rightarrow> device" where
  "handleEncoder i s =
     (let encoded = readEncoded i;
          dir = decodeDir (lastEncoded s) encoded;
          s1 = s\<lparr>lastEncoded := encoded\<rparr>
      in if dir \<noteq> 0 then
           (if dir = lastDir s1 then
              (let s2 = s1\<lparr>validRotations := validRotations s1 + 1\<rparr> in
               if validRotations s2 \<ge> 1 then
                 (let currentTime = nowEncoder i in
                  if isEncoderPressed s2 then
                    (if currentTime - lastRotationTime s2 > ROTATION_DEBOUNCE then
                       (let s3 =
                          (if dir > 0 then
                             (if currentVolume s2 > MIN_VOLUME then
                                (let v = s2\<lparr>currentVolume := currentVolume s2 - VOLUME_STEP\<rparr>;
                                     w = emit (EvSetVolume (currentVolume v)) v;
                                     x = displayVolumeOnLeds currentTime w
                                 in x\<lparr>volumeAdjustedWhilePressed := True\<rparr>)
                              else s2)
                           else
                             (if currentVolume s2 < MAX_VOLUME then
                                (let v = s2\<lparr>currentVolume := currentVolume s2 + VOLUME_STEP\<rparr>;
                                     w = emit (EvSetVolume (currentVolume v)) v;
                                     x = displayVolumeOnLeds currentTime w
                                 in x\<lparr>volumeAdjustedWhilePressed := True\<rparr>)
                              else s2))
                        in s3\<lparr>validRotations := 0, lastRotationTime := currentTime\<rparr>)
                     else s2)
                  else
                    (if currentTime - lastTrackNavigationTime s2 > TRACK_NAVIGATION_DEBOUNCE \<and>
                        \<not> isColorDetectionEnabled s2 then
                       (let s3 = (if dir > 0 then playNextTrack s2 else playPreviousTrack s2)
                        in s3\<lparr>validRotations := 0, lastTrackNavigationTime := currentTime\<rparr>)
                     else s2))
               else s2)
            else s1\<lparr>lastDir := dir, validRotations := 2\<rparr>)
         else s1)"

subsection \<open>The main loop\<close>

definition readColor :: "tick_in \<Rightarrow> device \<Rightarrow> device" where
  "readColor i s =
     (case sensed i of (x, y, z) \<Rightarrow> s\<lparr>sampleR := x, sampleG := y, sampleB := z\<rparr>)"

text \<open>
  The six calls of \<^verbatim>\<open>checkPainterColor\<close> in \<^verbatim>\<open>loop\<close>, one per painter table, in
  the order of the sketch.
\<close>

definition probePainters :: "config \<Rightarrow> device \<Rightarrow> device" where
  "probePainters cfg s =
     (let p1 = checkPainterColor (daliColors cfg) s;
          p2 = checkPainterColor (goghColors cfg) p1;
          p3 = checkPainterColor (munchColors cfg) p2;
          p4 = checkPainterColor (picassoColors cfg) p3;
          p5 = checkPainterColor (seuratColors cfg) p4
      in checkPainterColor (vinciColors cfg) p5)"

text \<open>The branch of \<^verbatim>\<open>loop\<close> taken while \<^verbatim>\<open>isColorDetectionEnabled\<close> holds.\<close>

definition senseAndClassify :: "config \<Rightarrow> tick_in \<Rightarrow> device \<Rightarrow> device" where
  "senseAndClassify cfg i s =
     (let s1 = emit EvShowColor (readColor i s) in
      if currentMode s1 = COLOR_RECOGNITION
      then checkColor cfg i (colorThresholds cfg) s1
      else checkPainterCompletion cfg i (probePainters cfg s1))"

text \<open>The branch of \<^verbatim>\<open>loop\<close> taken while sensing is off: playback continuation.\<close>

definition continuePlayback :: "tick_in \<Rightarrow> device \<Rightarrow> device" where
  "continuePlayback i s =
     (if isLooping s then
        (if \<not> running1 i then
           (if currentPlayingFile s \<noteq> [] then
              (let s1 = emit (EvConnect (currentPlayingFile s)) s
               in if \<not> connectOk i (currentPlayingFile s) then s1\<lparr>isLooping := False\<rparr> else s1)
            else s)
         else emit EvAudioLoop s)
      else s)"

text \<open>
  The first part of \<^verbatim>\<open>loop\<close>: the two input handlers and the time-out of the volume
  display. After the sleep sequence nothing runs.
\<close>

definition handleInput :: "config \<Rightarrow> tick_in \<Rightarrow> device \<Rightarrow> device" where
  "handleInput cfg i s =
     (let s1 = handleButton cfg i s in
      if asleep s1 then s1
      else
        (let s2 = handleEncoder i s1
         in if isShowingVolume s2 \<and> nowLoop i - volumeDisplayStartTime s2 > VOLUME_DISPLAY_DURATION
            then restoreOriginalLeds s2 else s2))"

text \<open>
  The rest of \<^verbatim>\<open>loop\<close>: sensing or playback continuation, then the final
  \<^verbatim>\<open>audio.loop()\<close>.
\<close>

definition service :: "config \<Rightarrow> tick_in \<Rightarrow> device \<Rightarrow> device" where
  "service cfg i s3 =
     (let s4 = (if isColorDetectionEnabled s3 then senseAndClassify cfg i s3
                else continuePlayback i s3)
      in if running2 i then emit EvAudioLoop s4 else s4)"

definition loop :: "config \<Rightarrow> tick_in \<Rightarrow> device \<Rightarrow> device" where
  "loop cfg i s =
     (let s3 = handleInput cfg i s in
      if asleep s3 then s3 else service cfg i s3)"

text \<open>The device runs \<^verbatim>\<open>loop\<close> tick after tick until it sleeps.\<close>

fun run :: "config \<Rightarrow> device \<Rightarrow> tick_in list \<Rightarrow> device" where
  "run cfg s [] = s"
| "run cfg s (i # rest) = (if asleep s then s else run cfg (loop cfg i s) rest)"

text \<open>The state after \<^verbatim>\<open>setup()\<close>: the initial values of the globals.\<close>

definition boot :: device where
  "boot = \<lparr>currentMode = COLOR_RECOGNITION, isColorDetectionEnabled = False,
     isLooping = False, currentPlayingFile = [], currentVolume = 19,
     isShowingVolume = False, volumeDisplayStartTime = 0, lastButtonState = True,
     buttonPressStartTime = 0, isLongPressing = False, sleepPressStartTime = 0,
     isSleepPressing = False, isEncoderPressed = False,
     volumeAdjustedWhilePressed = False, lastRotationTime = 0,
     lastTrackNavigationTime = 0, colorCounters = replicate 16 0,
     painterCollectionStatus = replicate 6 (replicate 5 False), lastEncoded = 0,
     lastDir = 0, validRotations = 0, sampleR = 0, sampleG = 0, sampleB = 0,
     asleep = False, fault = False, events = []\<rparr>"

subsection \<open>Observations on a run\<close>

text \<open>The intents of the input handlers among the recorded calls.\<close>

fun is_intent :: "event \<Rightarrow> bool" where
  "is_intent EvSleep = True"
| "is_intent EvModeSwitch = True"
| "is_intent EvToggle = True"
| "is_intent (EvSetVolume v) = True"
| "is_intent (EvTrackDelta d) = True"
| "is_intent e = False"

definition intents :: "device \<Rightarrow> event list" where
  "intents s = filter is_intent (events s)"

text \<open>Rotation intents: a volume adjustment or a track navigation.\<close>

fun is_rotation :: "event \<Rightarrow> bool" where
  "is_rotation (EvSetVolume v) = True"
| "is_rotation (EvTrackDelta d) = True"
| "is_rotation e = False"

definition rotations :: "device \<Rightarrow> event list" where
  "rotations s = filter is_rotation (events s)"

fun is_volume :: "event \<Rightarrow> bool" where
  "is_volume (EvSetVolume v) = True"
| "is_volume e = False"

text \<open>How many volume adjustments were made so far.\<close>

definition cntVol :: "device \<Rightarrow> nat" where
  "cntVol s = length (filter is_volume (events s))"

text \<open>How often a given call was made so far.\<close>

definition cnt :: "event \<Rightarrow> device \<Rightarrow> nat" where
  "cnt e s = count_list (events s) e"

text \<open>The file names that \<^verbatim>\<open>playTrack\<close> was called with, in order.\<close>

fun requested :: "event list \<Rightarrow> string list" where
  "requested [] = []"
| "requested (EvPlayTrack f # es) = f # requested es"
| "requested (e # es) = requested es"

text \<open>The calls made since the state \<open>s\<close>, in a later state \<open>s'\<close>.\<close>

definition since :: "device \<Rightarrow> device \<Rightarrow> event list" where
  "since s s' = drop (length (events s)) (events s')"

text \<open>
  The variables of the two input handlers, with the intents made so far: what the
  classification and playback functions leave alone.
\<close>

definition inputCore ::
  "device \<Rightarrow> (bool \<times> 32 word \<times> bool \<times> 32 word \<times> bool \<times> bool \<times> bool \<times> int) \<times>
             (8 word \<times> int \<times> int \<times> 32 word \<times> 32 word) \<times> bool \<times> event list" where
  "inputCore s =
     ((lastButtonState s, buttonPressStartTime s, isLongPressing s, sleepPressStartTime s,
       isSleepPressing s, isEncoderPressed s, volumeAdjustedWhilePressed s, currentVolume s),
      (lastEncoded s, lastDir s, validRotations s, lastRotationTime s,
       lastTrackNavigationTime s),
      asleep s, intents s)"

text \<open>The directions that the encoder readings of a list of ticks decode to.\<close>

fun dirs :: "8 word \<Rightarrow> tick_in list \<Rightarrow> int list" where
  "dirs e [] = []"
| "dirs e (i # rest) = decodeDir e (readEncoded i) # dirs (readEncoded i) rest"

text \<open>The most recent direction that is not 0, or 0 when there is none.\<close>

definition lastNonzero :: "int list \<Rightarrow> int" where
  "lastNonzero ds = (case filter (\<lambda>d. d \<noteq> 0) ds of [] \<Rightarrow> 0 | x # xs \<Rightarrow> last (x # xs))"

text \<open>The collection grid has its six rows and none of them is fully true.\<close>

definition noneComplete :: "device \<Rightarrow> bool" where
  "noneComplete s =
     (length (painterCollectionStatus s) = 6 \<and>
      list_all (\<lambda>p. \<not> rowComplete (painterCollectionStatus s) p) [0..<6])"

text \<open>The file that \<^verbatim>\<open>playAudio\<close> asks for when a painter's collection is complete.\<close>

definition completionFile :: "nat \<Rightarrow> string" where
  "completionFile painter = fitName (''/'' @ painterNames ! painter @ ''.mp3'')"

subsection \<open>Concrete inputs\<close>

text \<open>
  A tick with the button level, the two encoder phases and one clock reading; the sensor
  sees black, every file exists and plays, and audio is not running.
\<close>

definition tick :: "bool \<Rightarrow> bool \<Rightarrow> bool \<Rightarrow> 32 word \<Rightarrow> tick_in" where
  "tick btn a b t = \<lparr>button = btn, pinA = a, pinB = b, nowButton = t, nowEncoder = t,
     nowLoop = t, sensed = (0, 0, 0), sdExists = (\<lambda>f. True), connectOk = (\<lambda>f. True),
     running1 = False, running2 = False\<rparr>"

text \<open>The same with the encoder at rest (both phases high) and a colour sample.\<close>

definition tickS :: "bool \<Rightarrow> 32 word \<Rightarrow> real \<times> real \<times> real \<Rightarrow> tick_in" where
  "tickS btn t c = (tick btn True True t)\<lparr>sensed := c\<rparr>"

definition painterEntry :: "string \<Rightarrow> 8 word \<Rightarrow> 8 word \<Rightarrow> 8 word \<Rightarrow> PainterColor" where
  "painterEntry name k lo hi = \<lparr>rMinP = lo, rMaxP = hi, gMinP = 0, gMaxP = 255,
     bMinP = 0, bMaxP = 255, painterId = name, colorIndex = k\<rparr>"

definition palette :: "string \<Rightarrow> PainterColor list" where
  "palette name = [painterEntry name 1 10 19, painterEntry name 2 20 29,
     painterEntry name 3 30 39, painterEntry name 4 40 49, painterEntry name 5 50 59]"

text \<open>
  A configuration to run the sketch on: one red threshold with the asset \<open>R1\<close> of family
  0 and base name \<open>R\<close>, and two painters whose palettes hold the same five ranges.
\<close>

definition demoConfig :: config where
  "demoConfig = \<lparr>colorThresholds =
       [\<lparr>rMin = 200, rMax = 255, gMin = 0, gMax = 60, bMin = 0, bMax = 60,
         colorId = ''R1'', audioFile = ''R1''\<rparr>],
     daliColors = palette ''Dali'', goghColors = palette ''Gogh'', munchColors = [],
     picassoColors = [], seuratColors = [], vinciColors = [],
     getBaseColorName = (\<lambda>n. take 1 n),
     getColorFamilyIndex = (\<lambda>n. if take 1 n = ''R'' then 0 else - 1)\<rparr>"

text \<open>
  Boot, a long press that switches to the collection mode, a short press that starts
  sensing over a colour of both palettes, and another long press that switches back.
\<close>

definition collectOneThenSwitch :: "tick_in list" where
  "collectOneThenSwitch =
     [tick False True True 0, tick False True True 3000, tick True True True 3100,
      tick False True True 4000, tickS True 4100 (15, 0, 0),
      tick False True True 5000, tick False True True 8000]"

text \<open>A tick on which no file exists, and one on which no file can be opened.\<close>

definition missingFiles :: tick_in where
  "missingFiles = (tick True True True 0)\<lparr>sdExists := (\<lambda>f. False)\<rparr>"

definition brokenFiles :: tick_in where
  "brokenFiles = (tick True True True 0)\<lparr>connectOk := (\<lambda>f. False)\<rparr>"

text \<open>
  A short press that starts sensing over red, then a tick over black while the audio has
  ended.
\<close>

definition redThenBlack :: "tick_in list" where
  "redThenBlack =
     [tick False True True 0, tickS True 100 (230, 20, 20), tickS True 200 (0, 0, 0)]"

text \<open>The grid with every entry false, and what \<open>noneComplete\<close> asks of a grid.\<close>

definition allFalse :: "bool list list" where
  "allFalse = replicate 6 (replicate 5 False)"

definition gridOk :: "bool list list \<Rightarrow> bool" where
  "gridOk g = (length g = 6 \<and> list_all (\<lambda>p. \<not> rowComplete g p) [0..<6])"

text \<open>A device that is idle and looping over a file.\<close>

definition loopingIdle :: device where
  "loopingIdle = boot\<lparr>isLooping := True, currentPlayingFile := ''/R1.mp3''\<rparr>"

text \<open>A tick on which the audio is running, at both readings.\<close>

definition loopingRunning :: tick_in where
  "loopingRunning = (tick True True True 200)\<lparr>running1 := True, running2 := True\<rparr>"


text \<open>
  Boot, a long press into the collection mode, a short press that starts sensing, and
  five ticks over the five colours that the palettes of Dali and Gogh share.
\<close>

definition collectBoth :: "tick_in list" where
  "collectBoth =
     [tick False True True 0, tick False True True 3000, tick True True True 3100,
      tick False True True 4000, tickS True 4100 (15, 0, 0), tickS True 4200 (25, 0, 0),
      tickS True 4300 (35, 0, 0), tickS True 4400 (45, 0, 0), tickS True 4500 (55, 0, 0)]"

text \<open>
  The device before the last of these ticks: four colours of both palettes collected.
\<close>

definition fourOfEach :: device where
  "fourOfEach = \<lparr>currentMode = PAINTER_COLLECTION, isColorDetectionEnabled = True,
    isLooping = False, currentPlayingFile = [], currentVolume = 19,
    isShowingVolume = False, volumeDisplayStartTime = 0,
    lastButtonState = True, buttonPressStartTime = 4000,
    isLongPressing = False, sleepPressStartTime = 4000,
    isSleepPressing = False, isEncoderPressed = False,
    volumeAdjustedWhilePressed = False, lastRotationTime = 0,
    lastTrackNavigationTime = 0, colorCounters = replicate 16 0,
    painterCollectionStatus =
      [[True, True, True, True, False], [True, True, True, True, False],
       replicate 5 False, replicate 5 False, replicate 5 False, replicate 5 False],
    lastEncoded = 3, lastDir = 0, validRotations = 0, sampleR = 45,
    sampleG = 0, sampleB = 0, asleep = False, fault = False,
    events =
      [EvModeSwitch, EvStopSong, EvBlink 2, EvToggle, EvStopSong,
       EvShowColor, EvShowColor, EvShowColor, EvShowColor]\<rparr>"

text \<open>
  The last of these ticks, over the fifth colour.
\<close>

definition lastOfBoth :: tick_in where
  "lastOfBoth = tickS True 4500 (55, 0, 0)"

text \<open>
  The device after \<^verbatim>\<open>handleButton\<close> has recorded a press edge at time \<open>t\<close>.
\<close>

definition pressed :: "32 word \<Rightarrow> device \<Rightarrow> device" where
  "pressed t s = s\<lparr>buttonPressStartTime := t, isLongPressing := True,
     sleepPressStartTime := t, isSleepPressing := True, isEncoderPressed := True,
     volumeAdjustedWhilePressed := False, lastButtonState := False\<rparr>"

text \<open>
  The button is held since a press at time \<open>t\<close>, and the device is awake.
\<close>

definition held :: "32 word \<Rightarrow> device \<Rightarrow> bool" where
  "held t s = (\<not> asleep s \<and> \<not> lastButtonState s \<and> isSleepPressing s \<and>
     sleepPressStartTime s = t \<and> buttonPressStartTime s = t \<and> isEncoderPressed s)"

text \<open>
  A rotation of direction \<open>d\<close> finds the volume \<open>v\<close> at its boundary: clockwise
  (\<open>d > 0\<close>) decreases and needs \<open>v > MIN_VOLUME\<close>, counter-clockwise increases and
  needs \<open>v < MAX_VOLUME\<close>.
\<close>

definition atBoundary :: "int \<Rightarrow> int \<Rightarrow> bool" where
  "atBoundary v d = ((0 < d \<longrightarrow> v \<le> MIN_VOLUME) \<and> (d < 0 \<longrightarrow> MAX_VOLUME \<le> v))"

text \<open>
  A hold sampled once a second, up to five seconds.
\<close>

definition holdFiveSeconds :: "tick_in list" where
  "holdFiveSeconds =
     [tick False True True 0, tick False True True 1000, tick False True True 2000,
      tick False True True 3000, tick False True True 4000, tick False True True 5000]"

text \<open>
  A hold that is not sampled between two and five seconds.
\<close>

definition holdSampledLate :: "tick_in list" where
  "holdSampledLate =
     [tick False True True 0, tick False True True 1000, tick False True True 2000,
      tick False True True 5000]"



text \<open>
  The device at the maximum volume.
\<close>

definition loudest :: device where
  "loudest = boot\<lparr>currentVolume := 21\<rparr>"

text \<open>
  A press with a counter-clockwise rotation, released after 300 ms.
\<close>

definition turnUpAtMaximum :: "tick_in list" where
  "turnUpAtMaximum =
     [tick False False True 0, tick False True True 100, tick False True False 200,
      tick True True False 300]"

text \<open>
  The encoder, not pressed: one clockwise transition, a tick without a transition, one more
  clockwise transition.
\<close>

definition turnWithPause :: "tick_in list" where
  "turnWithPause =
     [tick True True False 200, tick True True False 400, tick True True True 600]"

text \<open>A short press that starts sensing, over five ticks of the same red.\<close>

definition fiveReds :: "tick_in list" where
  "fiveReds =
     [tick False True True 0, tickS True 100 (230, 20, 20), tickS True 200 (230, 20, 20),
      tickS True 300 (230, 20, 20), tickS True 400 (230, 20, 20), tickS True 500 (230, 20, 20)]"

section \<open>Properties\<close>

subsection \<open>What classification and playback leave alone\<close>

lemma inputCore_emit: "\<not> is_intent e \<Longrightarrow> inputCore (emit e s) = inputCore s"
  by (simp add: inputCore_def intents_def emit_def)

lemma inputCore_resetAll: "inputCore (resetAllPainterCollections s) = inputCore s"
  by (simp add: inputCore_def intents_def resetAllPainterCollections_def)

lemma inputCore_playTrack: "inputCore (playTrack i f s) = inputCore s"
  by (simp add: inputCore_def intents_def playTrack_def emit_def
      resetAllPainterCollections_def Let_def)

lemma inputCore_playAudio: "inputCore (playAudio cfg i n s) = inputCore s"
  by (simp add: playAudio_def Let_def inputCore_playTrack)
     (simp add: inputCore_def intents_def)

lemma inputCore_checkColor: "inputCore (checkColor cfg i ts s) = inputCore s"
  by (induction ts) (simp_all add: inputCore_playAudio)

lemma inputCore_markCollected: "inputCore (markCollected p c s) = inputCore s"
  by (simp add: markCollected_def Let_def inputCore_def intents_def)

lemma inputCore_checkPainterColor: "inputCore (checkPainterColor ts s) = inputCore s"
  by (induction ts) (simp_all add: inputCore_markCollected Let_def)

lemma inputCore_completionStep: "inputCore (completionStep cfg i p s) = inputCore s"
proof (cases "rowComplete (painterCollectionStatus s) p")
  case True
  have "inputCore (completionStep cfg i p s) = inputCore (playAudio cfg i (painterNames ! p) (blinkLEDs 2 s))"
    using True by (simp add: completionStep_def Let_def inputCore_def intents_def)
  then show ?thesis
    by (simp add: inputCore_playAudio blinkLEDs_def inputCore_emit)
next
  case False
  then show ?thesis by (simp add: completionStep_def)
qed

lemma inputCore_fold_completion:
  "inputCore (fold (completionStep cfg i) ps s) = inputCore s"
  by (induction ps arbitrary: s) (simp_all add: inputCore_completionStep)

lemma inputCore_checkPainterCompletion:
  "inputCore (checkPainterCompletion cfg i s) = inputCore s"
  by (simp add: checkPainterCompletion_def inputCore_fold_completion)

lemma inputCore_readColor: "inputCore (readColor i s) = inputCore s"
  by (simp add: readColor_def inputCore_def intents_def split: prod.splits)

lemma inputCore_senseAndClassify: "inputCore (senseAndClassify cfg i s) = inputCore s"
  by (simp add: senseAndClassify_def probePainters_def Let_def inputCore_checkColor
      inputCore_checkPainterCompletion inputCore_checkPainterColor inputCore_emit
      inputCore_readColor)

lemma inputCore_continuePlayback: "inputCore (continuePlayback i s) = inputCore s"
  by (simp add: continuePlayback_def Let_def inputCore_def intents_def emit_def)

lemma inputCore_service: "inputCore (service cfg i s) = inputCore s"
  by (simp add: service_def Let_def inputCore_emit inputCore_senseAndClassify
      inputCore_continuePlayback)

lemma inputCore_restore: "inputCore (restoreOriginalLeds s) = inputCore s"
  by (simp add: restoreOriginalLeds_def inputCore_def intents_def emit_def)

lemma inputCore_checkColorAndPlayAudio:
  "inputCore (checkColorAndPlayAudio cfg i s) = inputCore s"
  by (simp add: checkColorAndPlayAudio_def inputCore_checkColor)

text \<open>Reading the fields off an equation between cores.\<close>

lemma inputCoreD:
  assumes "inputCore a = inputCore b"
  shows "lastButtonState a = lastButtonState b"
    and "buttonPressStartTime a = buttonPressStartTime b"
    and "isLongPressing a = isLongPressing b"
    and "sleepPressStartTime a = sleepPressStartTime b"
    and "isSleepPressing a = isSleepPressing b"
    and "isEncoderPressed a = isEncoderPressed b"
    and "volumeAdjustedWhilePressed a = volumeAdjustedWhilePressed b"
    and "currentVolume a = currentVolume b"
    and "lastEncoded a = lastEncoded b"
    and "lastDir a = lastDir b"
    and "validRotations a = validRotations b"
    and "lastRotationTime a = lastRotationTime b"
    and "lastTrackNavigationTime a = lastTrackNavigationTime b"
    and "asleep a = asleep b"
    and "intents a = intents b"
  using assms by (simp_all add: inputCore_def)

lemma count_list_filter: "P e \<Longrightarrow> count_list (filter P xs) e = count_list xs e"
  by (induction xs) auto

lemma cnt_intents: "is_intent e \<Longrightarrow> cnt e s = count_list (intents s) e"
  by (simp add: cnt_def intents_def count_list_filter)

lemma filter_volume_intent: "filter is_volume (filter is_intent xs) = filter is_volume xs"
proof (induction xs)
  case Nil
  show ?case by simp
next
  case (Cons x xs)
  then show ?case by (cases x) simp_all
qed

lemma filter_rotation_intent: "filter is_rotation (filter is_intent xs) = filter is_rotation xs"
proof (induction xs)
  case Nil
  show ?case by simp
next
  case (Cons x xs)
  then show ?case by (cases x) simp_all
qed

lemma cntVol_intents: "cntVol s = length (filter is_volume (intents s))"
  unfolding cntVol_def intents_def filter_volume_intent ..

lemma rotations_intents: "rotations s = filter is_rotation (intents s)"
  unfolding rotations_def intents_def filter_rotation_intent ..

lemma inputCore_cnt: "inputCore a = inputCore b \<Longrightarrow> is_intent e \<Longrightarrow> cnt e a = cnt e b"
  using inputCoreD(15) [of a b] by (simp add: cnt_intents)

lemma inputCore_cntVol: "inputCore a = inputCore b \<Longrightarrow> cntVol a = cntVol b"
  using inputCoreD(15) [of a b] by (simp add: cntVol_intents)

lemma inputCore_rotations: "inputCore a = inputCore b \<Longrightarrow> rotations a = rotations b"
  using inputCoreD(15) [of a b] by (simp add: rotations_intents)

lemma coreD_events:
  assumes "inputCore a = inputCore b"
  shows "filter is_intent (events a) = filter is_intent (events b)"
    and "filter is_volume (events a) = filter is_volume (events b)"
    and "filter is_rotation (events a) = filter is_rotation (events b)"
    and "is_intent e \<Longrightarrow> count_list (events a) e = count_list (events b) e"
proof -
  show i: "filter is_intent (events a) = filter is_intent (events b)"
    using inputCoreD(15) [OF assms] by (simp add: intents_def)
  show "filter is_volume (events a) = filter is_volume (events b)"
    using arg_cong [OF i, of "filter is_volume"] unfolding filter_volume_intent .
  show "filter is_rotation (events a) = filter is_rotation (events b)"
    using arg_cong [OF i, of "filter is_rotation"] unfolding filter_rotation_intent .
  show "is_intent e \<Longrightarrow> count_list (events a) e = count_list (events b) e"
    using arg_cong [OF i, of "\<lambda>xs. count_list xs e"] by (simp add: count_list_filter)
qed

lemmas ccapa_simps =
  inputCoreD(1-14) [OF inputCore_checkColorAndPlayAudio]
  coreD_events [OF inputCore_checkColorAndPlayAudio]

lemmas service_simps =
  inputCoreD(1-14) [OF inputCore_service]
  coreD_events [OF inputCore_service]

lemmas restore_simps =
  inputCoreD(1-14) [OF inputCore_restore]
  coreD_events [OF inputCore_restore]

subsection \<open>The encoder handler\<close>

lemmas he_defs = handleEncoder_def Let_def emit_def displayVolumeOnLeds_def
  playNextTrack_def playPreviousTrack_def

lemma handleEncoder_button_fields:
  "lastButtonState (handleEncoder i s) = lastButtonState s"
  "buttonPressStartTime (handleEncoder i s) = buttonPressStartTime s"
  "isLongPressing (handleEncoder i s) = isLongPressing s"
  "sleepPressStartTime (handleEncoder i s) = sleepPressStartTime s"
  "isSleepPressing (handleEncoder i s) = isSleepPressing s"
  "isEncoderPressed (handleEncoder i s) = isEncoderPressed s"
  "asleep (handleEncoder i s) = asleep s"
  by (simp_all add: he_defs)

lemma handleEncoder_lastEncoded: "lastEncoded (handleEncoder i s) = readEncoded i"
  by (simp add: he_defs)

lemma handleEncoder_lastDir:
  "lastDir (handleEncoder i s) =
     (if decodeDir (lastEncoded s) (readEncoded i) \<noteq> 0
      then decodeDir (lastEncoded s) (readEncoded i) else lastDir s)"
  by (simp add: he_defs)

lemma handleEncoder_counts:
  "count_list (events (handleEncoder i s)) EvSleep = count_list (events s) EvSleep"
  "count_list (events (handleEncoder i s)) EvModeSwitch = count_list (events s) EvModeSwitch"
  "count_list (events (handleEncoder i s)) EvToggle = count_list (events s) EvToggle"
  by (simp_all add: he_defs)

lemma handleEncoder_flag_mono:
  "volumeAdjustedWhilePressed s \<Longrightarrow> volumeAdjustedWhilePressed (handleEncoder i s)"
  by (simp add: he_defs)

lemma handleEncoder_cntVol_mono: "cntVol s \<le> cntVol (handleEncoder i s)"
  by (simp add: he_defs cntVol_def)

lemma handleEncoder_cntVol_flag:
  "cntVol s < cntVol (handleEncoder i s) \<Longrightarrow> volumeAdjustedWhilePressed (handleEncoder i s)"
  by (simp add: he_defs cntVol_def split: if_splits)

lemma handleEncoder_boundary:
  assumes "isEncoderPressed s"
    and "0 < decodeDir (lastEncoded s) (readEncoded i) \<longrightarrow> currentVolume s \<le> MIN_VOLUME"
    and "decodeDir (lastEncoded s) (readEncoded i) < 0 \<longrightarrow> MAX_VOLUME \<le> currentVolume s"
  shows "currentVolume (handleEncoder i s) = currentVolume s"
    and "volumeAdjustedWhilePressed (handleEncoder i s) = volumeAdjustedWhilePressed s"
    and "cntVol (handleEncoder i s) = cntVol s"
  using assms by (auto simp add: he_defs cntVol_def)

lemma handleEncoder_rotation_only_confirmed:
  assumes "rotations (handleEncoder i s) \<noteq> rotations s"
  shows "decodeDir (lastEncoded s) (readEncoded i) = lastDir s \<and> lastDir s \<noteq> 0"
  using assms by (auto simp add: he_defs rotations_def split: if_splits)

lemma handleEncoder_validRotations:
  "0 \<le> validRotations s \<Longrightarrow> 0 \<le> validRotations (handleEncoder i s)"
  by (simp add: he_defs)

subsection \<open>The button handler\<close>

lemma switchMode_events:
  "events (switchMode s) =
     events s @ [EvModeSwitch, EvStopSong,
                 EvBlink (if currentMode s = COLOR_RECOGNITION then 2 else 1)]"
  by (cases "currentMode s")
     (simp_all add: switchMode_def emit_def blinkLEDs_def resetAllPainterCollections_def Let_def)

lemma switchMode_fields:
  "lastButtonState (switchMode s) = lastButtonState s"
  "buttonPressStartTime (switchMode s) = buttonPressStartTime s"
  "isLongPressing (switchMode s) = isLongPressing s"
  "sleepPressStartTime (switchMode s) = sleepPressStartTime s"
  "isSleepPressing (switchMode s) = isSleepPressing s"
  "isEncoderPressed (switchMode s) = isEncoderPressed s"
  "volumeAdjustedWhilePressed (switchMode s) = volumeAdjustedWhilePressed s"
  "currentVolume (switchMode s) = currentVolume s"
  "lastEncoded (switchMode s) = lastEncoded s"
  "lastDir (switchMode s) = lastDir s"
  "validRotations (switchMode s) = validRotations s"
  "lastRotationTime (switchMode s) = lastRotationTime s"
  "lastTrackNavigationTime (switchMode s) = lastTrackNavigationTime s"
  "asleep (switchMode s) = asleep s"
  by (simp_all add: switchMode_def emit_def blinkLEDs_def resetAllPainterCollections_def Let_def)

lemma handleButton_press:
  assumes "\<not> button i" and "lastButtonState s"
  shows "handleButton cfg i s =
           s\<lparr>buttonPressStartTime := nowButton i, isLongPressing := True,
             sleepPressStartTime := nowButton i, isSleepPressing := True,
             isEncoderPressed := True, volumeAdjustedWhilePressed := False,
             lastButtonState := False\<rparr>"
  using assms by (simp add: handleButton_def Let_def)

lemma handleButton_held_sleep:
  assumes "\<not> button i" and "\<not> lastButtonState s" and "isSleepPressing s"
    and "SLEEP_PRESS_DURATION \<le> nowButton i - sleepPressStartTime s"
  shows "handleButton cfg i s = enterDeepSleep (prepareForSleep (emit EvSleep s))"
  using assms by (simp add: handleButton_def Let_def)

lemma handleButton_held:
  assumes "\<not> button i" and "\<not> lastButtonState s"
    and "\<not> (isSleepPressing s \<and> SLEEP_PRESS_DURATION \<le> nowButton i - sleepPressStartTime s)"
  shows "handleButton cfg i s =
           (if isLongPressing s \<and>
               MODE_SWITCH_PRESS_DURATION \<le> nowButton i - buttonPressStartTime s
            then (if \<not> volumeAdjustedWhilePressed s then switchMode s else s)
                   \<lparr>isLongPressing := False\<rparr>
            else s)\<lparr>lastButtonState := False\<rparr>"
  using assms by (auto simp add: handleButton_def Let_def switchMode_fields)

lemma handleButton_idle:
  assumes "button i" and "lastButtonState s"
  shows "handleButton cfg i s = s\<lparr>lastButtonState := True\<rparr>"
  using assms by (simp add: handleButton_def Let_def)

lemma handleButton_release:
  assumes "button i" and "\<not> lastButtonState s"
  shows "asleep (handleButton cfg i s) = asleep s"
    and "lastButtonState (handleButton cfg i s)"
    and "count_list (events (handleButton cfg i s)) EvSleep = count_list (events s) EvSleep"
    and "count_list (events (handleButton cfg i s)) EvModeSwitch =
           count_list (events s) EvModeSwitch"
    and "count_list (events (handleButton cfg i s)) EvToggle =
           count_list (events s) EvToggle +
           (if nowButton i - buttonPressStartTime s < MODE_SWITCH_PRESS_DURATION \<and>
               \<not> volumeAdjustedWhilePressed s then 1 else 0)"
  using assms
  by (simp_all add: handleButton_def Let_def emit_def resetAllPainterCollections_def ccapa_simps)

lemma handleButton_encoder_fields:
  "lastEncoded (handleButton cfg i s) = lastEncoded s"
  "lastDir (handleButton cfg i s) = lastDir s"
  "validRotations (handleButton cfg i s) = validRotations s"
  "lastRotationTime (handleButton cfg i s) = lastRotationTime s"
  "lastTrackNavigationTime (handleButton cfg i s) = lastTrackNavigationTime s"
  "currentVolume (handleButton cfg i s) = currentVolume s"
  "filter is_rotation (events (handleButton cfg i s)) = filter is_rotation (events s)"
  "filter is_volume (events (handleButton cfg i s)) = filter is_volume (events s)"
  by (simp_all add: handleButton_def Let_def emit_def resetAllPainterCollections_def ccapa_simps
      switchMode_fields switchMode_events prepareForSleep_def enterDeepSleep_def)

subsection \<open>One tick\<close>

lemma loop_asleep:
  "asleep (handleButton cfg i s) \<Longrightarrow> loop cfg i s = handleButton cfg i s"
  by (simp add: loop_def handleInput_def Let_def)

lemma loop_core:
  "\<not> asleep (handleButton cfg i s) \<Longrightarrow>
     inputCore (loop cfg i s) = inputCore (handleEncoder i (handleButton cfg i s))"
  by (simp add: loop_def handleInput_def Let_def inputCore_service inputCore_restore
      handleEncoder_button_fields restore_simps)

section \<open>The claims\<close>

subsection \<open>C5: the mode switch\<close>

text \<open>
  Claim C5, as the code has it. Every call of \<^verbatim>\<open>switchMode\<close>, in either direction,
  first stops the playback (\<^verbatim>\<open>audio.stopSong()\<close> is its first call to the audio, and
  it makes no playback request), clears the looping flag and the saved file name, sets
  all sixteen repeat counters to 0 and toggles the mode. The collection grid is set to
  all-false when the new mode is the collection mode; when the new mode is the detection
  mode the grid is left as it was.
\<close>

theorem switchMode_effect:
  "events (switchMode s) =
     events s @ [EvModeSwitch, EvStopSong,
                 EvBlink (if currentMode s = COLOR_RECOGNITION then 2 else 1)] \<and>
   isLooping (switchMode s) = False \<and>
   currentPlayingFile (switchMode s) = [] \<and>
   colorCounters (switchMode s) = replicate 16 0 \<and>
   currentMode (switchMode s) =
     (if currentMode s = COLOR_RECOGNITION then PAINTER_COLLECTION else COLOR_RECOGNITION) \<and>
   painterCollectionStatus (switchMode s) =
     (if currentMode s = COLOR_RECOGNITION then replicate 6 (replicate 5 False)
      else painterCollectionStatus s)"
  by (cases "currentMode s")
     (simp_all add: switchMode_def emit_def blinkLEDs_def resetAllPainterCollections_def Let_def)

theorem switchMode_effect_witness:
  "events (switchMode boot) = [EvModeSwitch, EvStopSong, EvBlink 2] \<and>
   currentMode (switchMode boot) = PAINTER_COLLECTION \<and>
   colorCounters (switchMode boot) = replicate 16 0 \<and>
   painterCollectionStatus (switchMode boot) = replicate 6 (replicate 5 False)"
  using switchMode_effect [of boot] by (simp add: boot_def)

text \<open>
  Claim C5 as stated fails from the collection mode to the detection mode: after boot, a
  long press enters the collection mode, a short press starts sensing, one colour of
  Dali's palette is collected, and a second long press switches back to the detection
  mode with that entry of the grid still true.
\<close>

theorem switchMode_keeps_grid_into_detection:
  "currentMode (run demoConfig boot (butlast collectOneThenSwitch)) = PAINTER_COLLECTION \<and>
   currentMode (run demoConfig boot collectOneThenSwitch) = COLOR_RECOGNITION \<and>
   intents (run demoConfig boot collectOneThenSwitch) = [EvModeSwitch, EvToggle, EvModeSwitch] \<and>
   painterCollectionStatus (run demoConfig boot collectOneThenSwitch) ! 0 ! 0"
  by code_simp

subsection \<open>C7: a playback request that fails\<close>

text \<open>
  Claim C7, as the code has it. When the file of a request does not exist,
  \<^verbatim>\<open>playTrack\<close> returns at once: it makes no call to the audio, and the state,
  the looping flag included, is what it was (only the request is on record). When the
  file exists and \<^verbatim>\<open>audio.connecttoFS\<close> fails, the previous playback has been
  stopped, the file name is saved and the looping flag is cleared. In both cases the
  mode, the sensing flag, the counters, the grid and the LEDs are untouched.
\<close>

theorem playTrack_failure_paths:
  "(\<not> sdExists i f \<longrightarrow> playTrack i f s = emit (EvPlayTrack f) s) \<and>
   (sdExists i f \<and> \<not> connectOk i (fitName f) \<longrightarrow>
      playTrack i f s =
        s\<lparr>currentPlayingFile := fitName f, isLooping := False,
          events := events s @ [EvPlayTrack f, EvStopSong, EvConnect (fitName f)]\<rparr>)"
  by (simp add: playTrack_def emit_def Let_def)

theorem playTrack_failure_paths_witness:
  "\<not> sdExists missingFiles ''/R1.mp3'' \<and>
   playTrack missingFiles ''/R1.mp3'' boot = emit (EvPlayTrack ''/R1.mp3'') boot \<and>
   sdExists brokenFiles ''/R1.mp3'' \<and> \<not> connectOk brokenFiles (fitName ''/R1.mp3'') \<and>
   isLooping (playTrack brokenFiles ''/R1.mp3'' (boot\<lparr>isLooping := True\<rparr>)) = False \<and>
   events (playTrack brokenFiles ''/R1.mp3'' (boot\<lparr>isLooping := True\<rparr>)) =
     [EvPlayTrack ''/R1.mp3'', EvStopSong, EvConnect ''/R1.mp3'']"
  using playTrack_failure_paths [of missingFiles "''/R1.mp3''" boot]
    playTrack_failure_paths [of brokenFiles "''/R1.mp3''" "boot\<lparr>isLooping := True\<rparr>"]
  by (simp add: missingFiles_def brokenFiles_def tick_def boot_def fitName_def)

text \<open>
  Claim C7 as stated fails on the existence check: a first request starts playing and
  sets the looping flag; a second request, for a file that does not exist, leaves the
  flag set.
\<close>

theorem playTrack_missing_keeps_looping:
  "isLooping (playTrack (tick True True True 0) ''/R1.mp3'' boot) \<and>
   \<not> sdExists missingFiles ''/R2.mp3'' \<and>
   isLooping (playTrack missingFiles ''/R2.mp3''
               (playTrack (tick True True True 0) ''/R1.mp3'' boot))"
  by (simp add: playTrack_def missingFiles_def tick_def boot_def emit_def Let_def fitName_def)

subsection \<open>C4: the repeat counter of the detection mode\<close>

lemma fitName_short: "length f \<le> 31 \<Longrightarrow> fitName f = f"
  by (simp add: fitName_def)

lemma playTrack_request: "prefix (events s @ [EvPlayTrack f]) (events (playTrack i f s))"
  by (simp add: playTrack_def emit_def Let_def resetAllPainterCollections_def)

lemma playTrack_colorCounters: "colorCounters (playTrack i f s) = colorCounters s"
  by (simp add: playTrack_def emit_def Let_def resetAllPainterCollections_def)

lemma playAudio_detection:
  assumes "currentMode s = COLOR_RECOGNITION"
    and "0 \<le> getColorFamilyIndex cfg n" and "getColorFamilyIndex cfg n < COLOR_FAMILY_COUNT"
  shows "playAudio cfg i n s =
     (let k = nat (getColorFamilyIndex cfg n); c = colorCounters s ! k + 1 in
      if c \<ge> COLOR_COUNT_THRESHOLD
      then playTrack i (fitName (''/'' @ fitBase (getBaseColorName cfg n) @ ''X.mp3''))
             (s\<lparr>colorCounters := (colorCounters s)[k := 0],
                currentPlayingFile := fitName (''/'' @ fitBase (getBaseColorName cfg n) @ ''X.mp3'')\<rparr>)
      else playTrack i (fitName (''/'' @ n @ ''.mp3''))
             (s\<lparr>colorCounters := (colorCounters s)[k := c],
                currentPlayingFile := fitName (''/'' @ n @ ''.mp3'')\<rparr>))"
  using assms by (simp add: playAudio_def Let_def)

lemma playTrack_file:
  "currentPlayingFile (playTrack i f s) = (if sdExists i f then fitName f else currentPlayingFile s)"
  by (simp add: playTrack_def emit_def Let_def resetAllPainterCollections_def)

lemma fitBase_short: "length b \<le> 9 \<Longrightarrow> fitBase b = b"
  by (simp add: fitBase_def)

text \<open>
  Claim C4. In the detection mode, \<^verbatim>\<open>playAudio\<close> for a matched identity \<open>n\<close> whose
  family has the index \<open>k\<close> (one of the sixteen counters) increments counter \<open>k\<close>.
  When the incremented counter is below 5 it is stored and the plain asset
  \<open>/n.mp3\<close> is requested; when it reaches 5 the counter is reset to 0 and the special
  asset of the family, base name followed by \<open>X\<close>, is requested. The requested name is
  also the one left in \<^verbatim>\<open>currentPlayingFile\<close>. The names are those that fit the
  buffers of the sketch: the base name the 10 bytes of \<^verbatim>\<open>baseColor\<close>, the file name the
  32 bytes of \<^verbatim>\<open>currentPlayingFile\<close>.
\<close>

theorem playAudio_repeat_counter:
  assumes "currentMode s = COLOR_RECOGNITION"
    and "0 \<le> getColorFamilyIndex cfg n" and "getColorFamilyIndex cfg n < COLOR_FAMILY_COUNT"
    and "length (colorCounters s) = 16"
    and "length n \<le> 26" and "length (getBaseColorName cfg n) \<le> 9"
  shows "let k = nat (getColorFamilyIndex cfg n);
             c = colorCounters s ! k + 1;
             s' = playAudio cfg i n s
         in (c < COLOR_COUNT_THRESHOLD \<longrightarrow>
               colorCounters s' = (colorCounters s)[k := c] \<and> colorCounters s' ! k = c \<and>
               prefix (events s @ [EvPlayTrack (''/'' @ n @ ''.mp3'')]) (events s') \<and>
               currentPlayingFile s' = ''/'' @ n @ ''.mp3'') \<and>
            (c \<ge> COLOR_COUNT_THRESHOLD \<longrightarrow>
               colorCounters s' = (colorCounters s)[k := 0] \<and> colorCounters s' ! k = 0 \<and>
               prefix (events s @ [EvPlayTrack (''/'' @ getBaseColorName cfg n @ ''X.mp3'')])
                 (events s') \<and>
               currentPlayingFile s' = ''/'' @ getBaseColorName cfg n @ ''X.mp3'')"
proof -
  define k where "k = nat (getColorFamilyIndex cfg n)"
  define c where "c = colorCounters s ! k + 1"
  define plain where "plain = ''/'' @ n @ ''.mp3''"
  define special where "special = ''/'' @ getBaseColorName cfg n @ ''X.mp3''"
  have k: "k < length (colorCounters s)"
    using assms by (simp add: k_def)
  have f1: "fitName plain = plain"
    using assms(5) by (simp add: fitName_def plain_def)
  have f2: "fitName special = special"
    using assms(6) by (simp add: fitName_def special_def)
  have f3: "''/'' @ fitBase (getBaseColorName cfg n) @ ''X.mp3'' = special"
    unfolding special_def fitBase_short [OF assms(6)] ..
  have pa: "playAudio cfg i n s =
      (if c \<ge> COLOR_COUNT_THRESHOLD
       then playTrack i (fitName special)
              (s\<lparr>colorCounters := (colorCounters s)[k := 0],
                 currentPlayingFile := fitName special\<rparr>)
       else playTrack i (fitName plain)
              (s\<lparr>colorCounters := (colorCounters s)[k := c],
                 currentPlayingFile := fitName plain\<rparr>))"
    unfolding plain_def c_def k_def f3 [symmetric]
    using playAudio_detection [OF assms(1-3), of i] unfolding Let_def .
  have low: "colorCounters (playAudio cfg i n s) = (colorCounters s)[k := c] \<and>
             colorCounters (playAudio cfg i n s) ! k = c \<and>
             prefix (events s @ [EvPlayTrack plain]) (events (playAudio cfg i n s)) \<and>
             currentPlayingFile (playAudio cfg i n s) = plain"
    if "c < COLOR_COUNT_THRESHOLD"
    using that [unfolded not_le [symmetric]] k playTrack_request [of "s\<lparr>colorCounters := (colorCounters s)[k := c],
                                 currentPlayingFile := plain\<rparr>" plain i]
    by (simp add: pa f1 playTrack_colorCounters playTrack_file)
  have high: "colorCounters (playAudio cfg i n s) = (colorCounters s)[k := 0] \<and>
             colorCounters (playAudio cfg i n s) ! k = 0 \<and>
             prefix (events s @ [EvPlayTrack special]) (events (playAudio cfg i n s)) \<and>
             currentPlayingFile (playAudio cfg i n s) = special"
    if "COLOR_COUNT_THRESHOLD \<le> c"
    using that k playTrack_request [of "s\<lparr>colorCounters := (colorCounters s)[k := 0],
                                 currentPlayingFile := special\<rparr>" special i]
    by (simp add: pa f2 playTrack_colorCounters playTrack_file)
  show ?thesis
    using low high
    unfolding Let_def k_def [symmetric] c_def [symmetric] plain_def [symmetric]
      special_def [symmetric]
    by blast
qed

text \<open>
  The scenario of the spec: family \<open>R\<close> matches on five ticks in a row; the plain asset
  is requested four times, then the special one, and the counter is back at 0.
\<close>

lemma fiveReds_run:
  "requested (events (run demoConfig boot fiveReds)) =
     [''/R1.mp3'', ''/R1.mp3'', ''/R1.mp3'', ''/R1.mp3'', ''/RX.mp3''] \<and>
   colorCounters (run demoConfig boot fiveReds) ! 0 = 0"
  by code_simp

theorem playAudio_repeat_counter_witness:
  "currentMode boot = COLOR_RECOGNITION \<and> getColorFamilyIndex demoConfig ''R1'' = 0 \<and>
   colorCounters (playAudio demoConfig (tick True True True 0) ''R1'' boot) ! 0 = 1 \<and>
   prefix [EvPlayTrack ''/R1.mp3'']
     (events (playAudio demoConfig (tick True True True 0) ''R1'' boot)) \<and>
   currentPlayingFile (playAudio demoConfig (tick True True True 0) ''R1'' boot) = ''/R1.mp3'' \<and>
   colorCounters (playAudio demoConfig (tick True True True 0) ''R1''
     (boot\<lparr>colorCounters := (colorCounters boot)[0 := 4]\<rparr>)) ! 0 = 0 \<and>
   prefix [EvPlayTrack ''/RX.mp3'']
     (events (playAudio demoConfig (tick True True True 0) ''R1''
        (boot\<lparr>colorCounters := (colorCounters boot)[0 := 4]\<rparr>))) \<and>
   currentPlayingFile (playAudio demoConfig (tick True True True 0) ''R1''
     (boot\<lparr>colorCounters := (colorCounters boot)[0 := 4]\<rparr>)) = ''/RX.mp3'' \<and>
   requested (events (run demoConfig boot fiveReds)) =
     [''/R1.mp3'', ''/R1.mp3'', ''/R1.mp3'', ''/R1.mp3'', ''/RX.mp3''] \<and>
   colorCounters (run demoConfig boot fiveReds) ! 0 = 0"
  using playAudio_repeat_counter [of boot demoConfig "''R1''" "tick True True True 0"]
    playAudio_repeat_counter [of "boot\<lparr>colorCounters := (colorCounters boot)[0 := 4]\<rparr>"
      demoConfig "''R1''" "tick True True True 0"]
    fiveReds_run
  by (simp add: boot_def demoConfig_def Let_def del: run.simps)

subsection \<open>C8: playback continuation\<close>

text \<open>
  Claim C8, as the code has it. Every tick that does not enter the sleep sequence ends
  with \<^verbatim>\<open>audio.loop()\<close> when the audio is running, and before that does one of two
  things. With sensing on after the input handlers it runs the sensing branch: the
  continuation is not reached and the calls of the tick are those of the classification.
  With sensing off it services playback continuation: if the looping flag is set and
  the audio is running it calls \<^verbatim>\<open>audio.loop()\<close>; if the flag is set, the audio is not
  running and a file name is saved it calls \<^verbatim>\<open>audio.connecttoFS\<close> for the saved name,
  and clears the flag when that fails; otherwise it makes no call. A tick that enters
  the sleep sequence does nothing after it.
\<close>

theorem continuation_only_when_idle:
  "(asleep (handleInput cfg i s) \<longrightarrow> loop cfg i s = handleInput cfg i s) \<and>
   (\<not> asleep (handleInput cfg i s) \<longrightarrow>
      events (loop cfg i s) =
        (if isColorDetectionEnabled (handleInput cfg i s)
         then events (senseAndClassify cfg i (handleInput cfg i s))
         else events (handleInput cfg i s) @
              (if isLooping (handleInput cfg i s) \<and> running1 i then [EvAudioLoop]
               else if isLooping (handleInput cfg i s) \<and>
                       currentPlayingFile (handleInput cfg i s) \<noteq> []
                    then [EvConnect (currentPlayingFile (handleInput cfg i s))]
                    else [])) @
        (if running2 i then [EvAudioLoop] else []) \<and>
      (\<not> isColorDetectionEnabled (handleInput cfg i s) \<longrightarrow>
         isLooping (loop cfg i s) =
           (isLooping (handleInput cfg i s) \<and>
            (running1 i \<or> currentPlayingFile (handleInput cfg i s) = [] \<or>
             connectOk i (currentPlayingFile (handleInput cfg i s)))) \<and>
         currentPlayingFile (loop cfg i s) = currentPlayingFile (handleInput cfg i s)))"
  by (simp add: loop_def service_def continuePlayback_def emit_def Let_def)

theorem continuation_only_when_idle_witness:
  "\<not> asleep (handleInput demoConfig (tick True True True 200) loopingIdle) \<and>
   \<not> isColorDetectionEnabled (handleInput demoConfig (tick True True True 200) loopingIdle) \<and>
   isLooping (handleInput demoConfig (tick True True True 200) loopingIdle) \<and>
   \<not> running1 (tick True True True 200) \<and>
   events (loop demoConfig (tick True True True 200) loopingIdle) = [EvConnect ''/R1.mp3''] \<and>
   isLooping (loop demoConfig (tick True True True 200) loopingIdle) \<and>
   events (loop demoConfig loopingRunning loopingIdle) = [EvAudioLoop, EvAudioLoop] \<and>
   events (loop demoConfig (tick True True True 200) boot) = []"
  using continuation_only_when_idle [of demoConfig "tick True True True 200" loopingIdle]
    continuation_only_when_idle [of demoConfig loopingRunning loopingIdle]
    continuation_only_when_idle [of demoConfig "tick True True True 200" boot]
  by (simp add: loopingIdle_def loopingRunning_def boot_def tick_def handleInput_def handleButton_def
      handleEncoder_def readEncoded_def decodeDir_def Let_def)

text \<open>
  Claim C8 as stated fails on a tick with sensing on: a short press starts sensing over
  red, which starts a looping asset; on the next tick the asset has ended and the sample
  matches nothing, and the tick only shows the colour: no restart is issued.
\<close>

theorem no_continuation_while_sensing:
  "isColorDetectionEnabled (run demoConfig boot (butlast redThenBlack)) \<and>
   isLooping (run demoConfig boot (butlast redThenBlack)) \<and>
   currentPlayingFile (run demoConfig boot (butlast redThenBlack)) = ''/R1.mp3'' \<and>
   \<not> running1 (last redThenBlack) \<and>
   since (run demoConfig boot (butlast redThenBlack)) (run demoConfig boot redThenBlack) =
     [EvShowColor]"
  by code_simp

subsection \<open>The completion scan\<close>

lemma row_not_complete: "\<not> list_all ((!) (replicate 5 False)) [0..<5]"
  by code_simp

lemma rowComplete_allFalse: "q < 6 \<Longrightarrow> \<not> rowComplete allFalse q"
  by (simp add: rowComplete_def allFalse_def row_not_complete)

lemma rowComplete_reset_same:
  "p < length g \<Longrightarrow> \<not> rowComplete (g[p := replicate 5 False]) p"
  by (simp add: rowComplete_def row_not_complete)

lemma rowComplete_reset_other:
  "q \<noteq> p \<Longrightarrow> rowComplete (g[p := x]) q = rowComplete g q"
  by (simp add: rowComplete_def)

lemma fitName_idem: "fitName (fitName f) = fitName f"
  by (simp add: fitName_def)

lemma playAudio_painter:
  assumes "currentMode s = PAINTER_COLLECTION"
  shows "playAudio cfg i n s =
           playTrack i (fitName (''/'' @ n @ ''.mp3''))
             (s\<lparr>currentPlayingFile := fitName (''/'' @ n @ ''.mp3'')\<rparr>)"
  using assms by (simp add: playAudio_def Let_def)

text \<open>A playback request leaves the grid alone or clears all of it.\<close>

lemma playTrack_grid:
  "painterCollectionStatus (playTrack i f s) = painterCollectionStatus s \<or>
   painterCollectionStatus (playTrack i f s) = allFalse"
  by (simp add: playTrack_def emit_def Let_def resetAllPainterCollections_def allFalse_def)

lemma playAudio_grid:
  "painterCollectionStatus (playAudio cfg i n s) = painterCollectionStatus s \<or>
   painterCollectionStatus (playAudio cfg i n s) = allFalse"
proof -
  have "painterCollectionStatus (playTrack i f (s\<lparr>colorCounters := c, currentPlayingFile := g\<rparr>)) =
          painterCollectionStatus s \<or>
        painterCollectionStatus (playTrack i f (s\<lparr>colorCounters := c, currentPlayingFile := g\<rparr>)) =
          allFalse" for f c g
    using playTrack_grid [of i f "s\<lparr>colorCounters := c, currentPlayingFile := g\<rparr>"] by simp
  moreover have "painterCollectionStatus (playTrack i f (s\<lparr>currentPlayingFile := g\<rparr>)) =
          painterCollectionStatus s \<or>
        painterCollectionStatus (playTrack i f (s\<lparr>currentPlayingFile := g\<rparr>)) = allFalse" for f g
    using playTrack_grid [of i f "s\<lparr>currentPlayingFile := g\<rparr>"] by simp
  ultimately show ?thesis
    by (simp add: playAudio_def Let_def)
qed

lemma completionStep_incomplete:
  "\<not> rowComplete (painterCollectionStatus s) p \<Longrightarrow> completionStep cfg i p s = s"
  by (simp add: completionStep_def)

lemma completionStep_grid:
  assumes "rowComplete (painterCollectionStatus s) p"
  shows "painterCollectionStatus (completionStep cfg i p s) =
           (painterCollectionStatus s)[p := replicate 5 False] \<or>
         painterCollectionStatus (completionStep cfg i p s) = allFalse[p := replicate 5 False]"
  using assms playAudio_grid [of cfg i "painterNames ! p" "blinkLEDs 2 s"]
  by (auto simp add: completionStep_def Let_def blinkLEDs_def emit_def)

lemma replicate_update_same: "(replicate n x)[p := x] = replicate n x"
  by (induction n arbitrary: p) (auto split: nat.splits)

lemma allFalse_reset: "allFalse[p := replicate 5 False] = allFalse"
  by (simp add: allFalse_def replicate_update_same)

lemma completionStep_length:
  "length (painterCollectionStatus s) = 6 \<Longrightarrow>
   length (painterCollectionStatus (completionStep cfg i p s)) = 6"
proof (cases "rowComplete (painterCollectionStatus s) p")
  case True
  assume "length (painterCollectionStatus s) = 6"
  then show ?thesis
    using completionStep_grid [OF True, of cfg i] by (auto simp add: allFalse_def)
next
  case False
  assume "length (painterCollectionStatus s) = 6"
  then show ?thesis using False by (simp add: completionStep_incomplete)
qed

lemma completionStep_clears_own:
  assumes "length (painterCollectionStatus s) = 6" and "p < 6"
  shows "\<not> rowComplete (painterCollectionStatus (completionStep cfg i p s)) p"
proof (cases "rowComplete (painterCollectionStatus s) p")
  case True
  show ?thesis
    using completionStep_grid [OF True, of cfg i] assms
    by (auto simp add: rowComplete_reset_same allFalse_reset rowComplete_allFalse)
next
  case False
  then show ?thesis by (simp add: completionStep_incomplete)
qed

lemma completionStep_keeps_incomplete:
  assumes "\<not> rowComplete (painterCollectionStatus s) q" and "q < 6"
  shows "\<not> rowComplete (painterCollectionStatus (completionStep cfg i p s)) q"
proof (cases "rowComplete (painterCollectionStatus s) p")
  case True
  then have "q \<noteq> p" using assms by auto
  then show ?thesis
    using completionStep_grid [OF True, of cfg i] assms
    by (auto simp add: rowComplete_reset_other allFalse_reset rowComplete_allFalse)
next
  case False
  then show ?thesis using assms by (simp add: completionStep_incomplete)
qed

lemma fold_completion_length:
  "length (painterCollectionStatus s) = 6 \<Longrightarrow>
   length (painterCollectionStatus (fold (completionStep cfg i) ps s)) = 6"
  by (induction ps arbitrary: s) (simp_all add: completionStep_length)

lemma fold_completion_keeps_incomplete:
  "\<not> rowComplete (painterCollectionStatus s) q \<Longrightarrow> q < 6 \<Longrightarrow>
   \<not> rowComplete (painterCollectionStatus (fold (completionStep cfg i) ps s)) q"
  by (induction ps arbitrary: s) (simp_all add: completionStep_keeps_incomplete)

lemma fold_completion_clears:
  "length (painterCollectionStatus s) = 6 \<Longrightarrow> q \<in> set ps \<Longrightarrow> q < 6 \<Longrightarrow>
   \<not> rowComplete (painterCollectionStatus (fold (completionStep cfg i) ps s)) q"
proof (induction ps arbitrary: s)
  case Nil
  then show ?case by simp
next
  case (Cons p ps)
  show ?case
  proof (cases "q = p")
    case True
    have "\<not> rowComplete (painterCollectionStatus (completionStep cfg i p s)) q"
      using True Cons.prems completionStep_clears_own by simp
    then show ?thesis
      using Cons.prems by (simp add: fold_completion_keeps_incomplete)
  next
    case False
    then show ?thesis
      using Cons.prems Cons.IH [of "completionStep cfg i p s"]
      by (simp add: completionStep_length)
  qed
qed

lemma checkPainterCompletion_noneComplete:
  assumes "length (painterCollectionStatus s) = 6"
  shows "noneComplete (checkPainterCompletion cfg i s)"
proof -
  have "\<not> rowComplete (painterCollectionStatus (checkPainterCompletion cfg i s)) q"
    if "q \<in> set [0..<6]" for q
    using that assms unfolding checkPainterCompletion_def
    by (intro fold_completion_clears) simp_all
  then show ?thesis
    using assms
    by (simp add: noneComplete_def list_all_iff checkPainterCompletion_def
        fold_completion_length)
qed

lemma requested_append: "requested (xs @ ys) = requested xs @ requested ys"
  by (induction xs rule: requested.induct) simp_all

lemma since_append: "events s' = events s @ new \<Longrightarrow> since s s' = new"
  by (simp add: since_def)

lemma since_prefix:
  "prefix (events s) (events s') \<Longrightarrow> events s' = events s @ since s s'"
  by (auto simp add: since_def prefix_def)

lemma playTrack_mode: "currentMode (playTrack i f s) = currentMode s"
  by (simp add: playTrack_def emit_def Let_def resetAllPainterCollections_def)

lemma playTrack_sensing:
  "isColorDetectionEnabled (playTrack i f s) = isColorDetectionEnabled s"
  by (simp add: playTrack_def emit_def Let_def resetAllPainterCollections_def)

lemma playTrack_requested:
  "requested (events (playTrack i f s)) = requested (events s) @ [f]"
  by (simp add: playTrack_def emit_def Let_def resetAllPainterCollections_def requested_append)

lemma playTrack_prefix: "prefix (events s) (events (playTrack i f s))"
  by (simp add: playTrack_def emit_def Let_def resetAllPainterCollections_def)

lemma playTrack_grid_failed:
  "\<not> (sdExists i f \<and> connectOk i (fitName f)) \<Longrightarrow>
   painterCollectionStatus (playTrack i f s) = painterCollectionStatus s"
  by (auto simp add: playTrack_def emit_def Let_def)

lemma playTrack_grid_started:
  "sdExists i f \<Longrightarrow> connectOk i (fitName f) \<Longrightarrow> currentMode s = PAINTER_COLLECTION \<Longrightarrow>
   painterCollectionStatus (playTrack i f s) = allFalse"
  by (simp add: playTrack_def emit_def Let_def resetAllPainterCollections_def allFalse_def)

lemma completionFile_fit: "fitName (completionFile p) = completionFile p"
  by (simp add: completionFile_def fitName_idem)

text \<open>The step of the scan on a complete row, in the collection mode.\<close>

lemma completionStep_painter:
  assumes "currentMode s = PAINTER_COLLECTION" and "rowComplete (painterCollectionStatus s) p"
  shows "completionStep cfg i p s =
     (playTrack i (completionFile p)
        ((emit (EvBlink 2) s)\<lparr>currentPlayingFile := completionFile p\<rparr>))
     \<lparr>isColorDetectionEnabled := False,
      painterCollectionStatus :=
        (painterCollectionStatus
          (playTrack i (completionFile p)
            ((emit (EvBlink 2) s)\<lparr>currentPlayingFile := completionFile p\<rparr>)))
        [p := replicate 5 False]\<rparr>"
proof -
  have m: "currentMode (blinkLEDs 2 s) = PAINTER_COLLECTION"
    using assms(1) by (simp add: blinkLEDs_def emit_def)
  show ?thesis
    using assms(2)
    unfolding completionStep_def Let_def playAudio_painter [OF m] completionFile_def
    by (simp add: blinkLEDs_def)
qed

lemma completionStep_mode:
  "currentMode s = PAINTER_COLLECTION \<Longrightarrow>
   currentMode (completionStep cfg i p s) = PAINTER_COLLECTION"
  by (cases "rowComplete (painterCollectionStatus s) p")
     (simp_all add: completionStep_painter completionStep_incomplete playTrack_mode emit_def)

lemma completionStep_request:
  assumes "currentMode s = PAINTER_COLLECTION" and "rowComplete (painterCollectionStatus s) p"
  shows "requested (events (completionStep cfg i p s)) =
           requested (events s) @ [completionFile p]"
  by (simp add: completionStep_painter [OF assms] playTrack_requested emit_def requested_append)

lemma completionStep_failed:
  assumes "currentMode s = PAINTER_COLLECTION" and "rowComplete (painterCollectionStatus s) p"
    and "\<not> (sdExists i (completionFile p) \<and> connectOk i (completionFile p))"
  shows "painterCollectionStatus (completionStep cfg i p s) =
           (painterCollectionStatus s)[p := replicate 5 False]"
  using assms(3)
  by (simp add: completionStep_painter [OF assms(1,2)] playTrack_grid_failed
      completionFile_fit emit_def)

lemma completionStep_started:
  assumes "currentMode s = PAINTER_COLLECTION" and "rowComplete (painterCollectionStatus s) p"
    and "sdExists i (completionFile p)" and "connectOk i (completionFile p)"
  shows "painterCollectionStatus (completionStep cfg i p s) = allFalse"
  using assms(3,4) assms(1)
  by (simp add: completionStep_painter [OF assms(1,2)] playTrack_grid_started
      completionFile_fit emit_def allFalse_reset)

lemma completionStep_prefix: "prefix (events s) (events (completionStep cfg i p s))"
proof (cases "rowComplete (painterCollectionStatus s) p")
  case True
  have "prefix (events (blinkLEDs 2 s)) (events (playAudio cfg i n (blinkLEDs 2 s)))" for n
    by (auto simp add: playAudio_def Let_def playTrack_def emit_def
        resetAllPainterCollections_def)
  then have "prefix (events s) (events (playAudio cfg i n (blinkLEDs 2 s)))" for n
    using prefix_order.trans [of "events s" "events (blinkLEDs 2 s)"]
    by (simp add: blinkLEDs_def emit_def)
  then show ?thesis
    using True by (simp add: completionStep_def Let_def)
next
  case False
  then show ?thesis by (simp add: completionStep_incomplete)
qed

lemma completionStep_sensing:
  "\<not> isColorDetectionEnabled s \<Longrightarrow> \<not> isColorDetectionEnabled (completionStep cfg i p s)"
  by (simp add: completionStep_def Let_def)

lemma completionStep_sensing_off:
  "rowComplete (painterCollectionStatus s) p \<Longrightarrow>
   \<not> isColorDetectionEnabled (completionStep cfg i p s)"
  by (simp add: completionStep_def Let_def)

lemma allFalse_nth: "q < 6 \<Longrightarrow> allFalse ! q = replicate 5 False"
  by (simp add: allFalse_def)

lemma update_nth_same: "g ! q = z \<Longrightarrow> g[p := z] ! q = z"
  by (cases "p < length g") (simp_all add: nth_list_update list_update_beyond)

lemma completionStep_keeps_cleared:
  assumes "painterCollectionStatus s ! q = replicate 5 False"
    and "length (painterCollectionStatus s) = 6" and "q < 6"
  shows "painterCollectionStatus (completionStep cfg i p s) ! q = replicate 5 False"
proof (cases "rowComplete (painterCollectionStatus s) p")
  case True
  show ?thesis
    using completionStep_grid [OF True, of cfg i] assms
    by (auto simp add: allFalse_reset allFalse_nth update_nth_same)
next
  case False
  then show ?thesis using assms by (simp add: completionStep_incomplete)
qed

lemma fold_completion_prefix:
  "prefix (events s) (events (fold (completionStep cfg i) ps s))"
proof (induction ps arbitrary: s)
  case Nil
  show ?case by simp
next
  case (Cons p ps)
  show ?case
    using completionStep_prefix [of s cfg i p] Cons [of "completionStep cfg i p s"]
    by (simp add: prefix_order.trans)
qed

lemma fold_completion_sensing:
  "\<not> isColorDetectionEnabled s \<Longrightarrow>
   \<not> isColorDetectionEnabled (fold (completionStep cfg i) ps s)"
  by (induction ps arbitrary: s) (simp_all add: completionStep_sensing)

lemma fold_completion_keeps_cleared:
  "painterCollectionStatus s ! q = replicate 5 False \<Longrightarrow>
   length (painterCollectionStatus s) = 6 \<Longrightarrow> q < 6 \<Longrightarrow>
   painterCollectionStatus (fold (completionStep cfg i) ps s) ! q = replicate 5 False"
  by (induction ps arbitrary: s)
     (simp_all add: completionStep_keeps_cleared completionStep_length)

lemma fold_completion_noop:
  "\<forall>p \<in> set ps. \<not> rowComplete (painterCollectionStatus s) p \<Longrightarrow>
   fold (completionStep cfg i) ps s = s"
  by (induction ps) (simp_all add: completionStep_incomplete)

lemma rowComplete_row: "g ! q = g' ! q \<Longrightarrow> rowComplete g q = rowComplete g' q"
  by (simp add: rowComplete_def)

text \<open>
  A scan over distinct rows on which no playback starts: every complete row is
  requested, in order, and exactly the complete rows are cleared.
\<close>

lemma fold_completion_failed:
  assumes "currentMode s = PAINTER_COLLECTION" and "distinct ps"
    and "\<forall>p \<in> set ps. rowComplete (painterCollectionStatus s) p \<longrightarrow>
           \<not> (sdExists i (completionFile p) \<and> connectOk i (completionFile p))"
  shows "currentMode (fold (completionStep cfg i) ps s) = PAINTER_COLLECTION \<and>
         requested (events (fold (completionStep cfg i) ps s)) =
           requested (events s) @
           map completionFile (filter (rowComplete (painterCollectionStatus s)) ps) \<and>
         painterCollectionStatus (fold (completionStep cfg i) ps s) =
           fold (\<lambda>p g. g[p := replicate 5 False])
             (filter (rowComplete (painterCollectionStatus s)) ps) (painterCollectionStatus s)"
  using assms
proof (induction ps arbitrary: s)
  case Nil
  then show ?case by simp
next
  case (Cons p ps)
  show ?case
  proof (cases "rowComplete (painterCollectionStatus s) p")
    case True
    let ?s1 = "completionStep cfg i p s"
    have g1: "painterCollectionStatus ?s1 = (painterCollectionStatus s)[p := replicate 5 False]"
      using Cons.prems True by (simp add: completionStep_failed)
    have same: "rowComplete (painterCollectionStatus ?s1) q =
                rowComplete (painterCollectionStatus s) q" if "q \<in> set ps" for q
    proof -
      have "q \<noteq> p" using that Cons.prems(2) by auto
      then show ?thesis by (simp add: g1 rowComplete_reset_other)
    qed
    have flt: "filter (rowComplete (painterCollectionStatus ?s1)) ps =
               filter (rowComplete (painterCollectionStatus s)) ps"
      using same by (simp cong: filter_cong)
    have ih: "currentMode (fold (completionStep cfg i) ps ?s1) = PAINTER_COLLECTION \<and>
         requested (events (fold (completionStep cfg i) ps ?s1)) =
           requested (events ?s1) @
           map completionFile (filter (rowComplete (painterCollectionStatus ?s1)) ps) \<and>
         painterCollectionStatus (fold (completionStep cfg i) ps ?s1) =
           fold (\<lambda>p g. g[p := replicate 5 False])
             (filter (rowComplete (painterCollectionStatus ?s1)) ps)
             (painterCollectionStatus ?s1)"
      using Cons.prems same
      by (intro Cons.IH) (simp_all add: completionStep_mode)
    show ?thesis
      using ih True Cons.prems(1)
      by (simp add: flt [unfolded g1] g1 completionStep_request)
  next
    case False
    then show ?thesis
      using Cons.IH [of s] Cons.prems by (simp add: completionStep_incomplete)
  qed
qed

lemma fold_reset_nth:
  "q < length g \<Longrightarrow>
   fold (\<lambda>p g. g[p := z]) ps g ! q = (if q \<in> set ps then z else g ! q)"
proof (induction ps arbitrary: g)
  case Nil
  show ?case by simp
next
  case (Cons p ps)
  have "fold (\<lambda>p g. g[p := z]) ps (g[p := z]) ! q =
          (if q \<in> set ps then z else g[p := z] ! q)"
    using Cons.prems by (intro Cons.IH) simp
  then show ?case
    using Cons.prems by (auto simp add: nth_list_update)
qed

lemma upt_split6: "T < 6 \<Longrightarrow> [0..<6] = [0..<T] @ T # [Suc T..<6]"
  using upt_add_eq_append [of 0 T "6 - T"] by (simp add: upt_conv_Cons)

lemma noneComplete_gridOk: "noneComplete s = gridOk (painterCollectionStatus s)"
  by (simp add: noneComplete_def gridOk_def)

lemma gridOk_allFalse: "gridOk allFalse"
  by (simp add: gridOk_def list_all_iff rowComplete_allFalse) (simp add: allFalse_def)

lemma gridOk_replicate: "gridOk (replicate 6 (replicate 5 False))"
  using gridOk_allFalse by (simp add: allFalse_def)

lemma gridOk_or: "gridOk g \<Longrightarrow> g' = g \<or> g' = allFalse \<Longrightarrow> gridOk g'"
  using gridOk_allFalse by auto

lemma gridOk_playTrack:
  "gridOk (painterCollectionStatus s) \<Longrightarrow> gridOk (painterCollectionStatus (playTrack i f s))"
  using playTrack_grid [of i f s] gridOk_or by blast

lemma gridOk_playAudio:
  "gridOk (painterCollectionStatus s) \<Longrightarrow>
   gridOk (painterCollectionStatus (playAudio cfg i n s))"
  using playAudio_grid [of cfg i n s] gridOk_or by blast

lemma gridOk_checkColor:
  "gridOk (painterCollectionStatus s) \<Longrightarrow>
   gridOk (painterCollectionStatus (checkColor cfg i ts s))"
  by (induction ts) (simp_all add: gridOk_playAudio)

lemma gridOk_checkColorAndPlayAudio:
  "gridOk (painterCollectionStatus s) \<Longrightarrow>
   gridOk (painterCollectionStatus (checkColorAndPlayAudio cfg i s))"
  by (simp add: checkColorAndPlayAudio_def gridOk_checkColor)

lemma gridOk_handleButton:
  "gridOk (painterCollectionStatus s) \<Longrightarrow>
   gridOk (painterCollectionStatus (handleButton cfg i s))"
  by (simp add: handleButton_def Let_def emit_def resetAllPainterCollections_def
      switchMode_def blinkLEDs_def prepareForSleep_def enterDeepSleep_def
      gridOk_checkColorAndPlayAudio gridOk_replicate)

lemma handleEncoder_grid:
  "painterCollectionStatus (handleEncoder i s) = painterCollectionStatus s"
  by (simp add: he_defs)

lemma handleInput_gridOk:
  "gridOk (painterCollectionStatus s) \<Longrightarrow>
   gridOk (painterCollectionStatus (handleInput cfg i s))"
  by (simp add: handleInput_def Let_def restoreOriginalLeds_def emit_def handleEncoder_grid
      gridOk_handleButton)

text \<open>
  A colour index beyond the row marks a cell of the next row: index 6 of Dali is the
  first cell of Gogh.
\<close>

lemma markCollected_next_row:
  "painterCollectionStatus (markCollected 0 6 boot) =
     [replicate 5 False, [True, False, False, False, False], replicate 5 False,
      replicate 5 False, replicate 5 False, replicate 5 False] \<and>
   \<not> fault (markCollected 0 6 boot) \<and> fault (markCollected 5 6 boot) \<and>
   fault (markCollected 0 0 boot)"
  by code_simp

lemma markCollected_length:
  "length (painterCollectionStatus (markCollected p c s)) = length (painterCollectionStatus s)"
  by (simp add: markCollected_def Let_def)

lemma checkPainterColor_length:
  "length (painterCollectionStatus (checkPainterColor ts s)) =
   length (painterCollectionStatus s)"
  by (induction ts) (simp_all add: markCollected_length Let_def)

lemma probePainters_length:
  "length (painterCollectionStatus (probePainters cfg s)) = length (painterCollectionStatus s)"
  by (simp add: probePainters_def Let_def checkPainterColor_length)

lemma gridOk_senseAndClassify:
  assumes "gridOk (painterCollectionStatus s)"
  shows "gridOk (painterCollectionStatus (senseAndClassify cfg i s))"
proof (cases "currentMode s")
  case COLOR_RECOGNITION
  have "gridOk (painterCollectionStatus (emit EvShowColor (readColor i s)))"
    using assms by (simp add: emit_def readColor_def split: prod.splits)
  then show ?thesis
    using COLOR_RECOGNITION
    by (simp add: senseAndClassify_def Let_def emit_def readColor_def gridOk_checkColor
        split: prod.splits)
next
  case PAINTER_COLLECTION
  have "length (painterCollectionStatus (emit EvShowColor (readColor i s))) = 6"
    using assms by (simp add: emit_def readColor_def gridOk_def split: prod.splits)
  then have "noneComplete (senseAndClassify cfg i s)"
    using PAINTER_COLLECTION
    by (simp add: senseAndClassify_def Let_def emit_def readColor_def
        checkPainterCompletion_noneComplete probePainters_length split: prod.splits)
  then show ?thesis by (simp add: noneComplete_gridOk)
qed

lemma gridOk_service:
  "gridOk (painterCollectionStatus s) \<Longrightarrow>
   gridOk (painterCollectionStatus (service cfg i s))"
  by (simp add: service_def Let_def emit_def continuePlayback_def gridOk_senseAndClassify)

lemma noneComplete_loop: "noneComplete s \<Longrightarrow> noneComplete (loop cfg i s)"
  by (simp add: noneComplete_gridOk loop_def Let_def gridOk_service handleInput_gridOk)

lemma noneComplete_run: "noneComplete s \<Longrightarrow> noneComplete (run cfg s ins)"
  by (induction ins arbitrary: s) (simp_all add: noneComplete_loop)

lemma noneComplete_boot: "noneComplete boot"
  by (simp add: noneComplete_gridOk boot_def gridOk_replicate)

lemma requested_since:
  assumes "prefix (events s) (events s')"
    and "requested (events s') = requested (events s) @ r"
  shows "requested (since s s') = r"
proof -
  have "requested (events s') = requested (events s) @ requested (since s s')"
    using since_prefix [OF assms(1)] requested_append [of "events s" "since s s'"] by simp
  then show ?thesis using assms(2) by simp
qed



subsection \<open>C9: several themes complete on one tick\<close>




subsection \<open>C3: a theme completes within the tick\<close>

lemma since_trans:
  assumes "prefix (events a) (events b)" and "prefix (events b) (events c)"
  shows "since a c = since a b @ since b c"
proof -
  obtain x where x: "events b = events a @ x"
    using assms(1) by (auto simp add: prefix_def)
  obtain y where y: "events c = events b @ y"
    using assms(2) by (auto simp add: prefix_def)
  show ?thesis by (simp add: since_def x y)
qed

lemma fold_completion_mode:
  "currentMode s = PAINTER_COLLECTION \<Longrightarrow>
   currentMode (fold (completionStep cfg i) ps s) = PAINTER_COLLECTION"
  by (induction ps arbitrary: s) (simp_all add: completionStep_mode)

text \<open>
  The scan reaches a complete row when no earlier complete row starts playing: the
  asset of the row is requested, sensing is switched off and the row is cleared.
\<close>

lemma scan_reaches:
  assumes "currentMode s = PAINTER_COLLECTION" and "length (painterCollectionStatus s) = 6"
    and "T < 6" and "rowComplete (painterCollectionStatus s) T"
    and "\<forall>p<T. rowComplete (painterCollectionStatus s) p \<longrightarrow>
           \<not> (sdExists i (completionFile p) \<and> connectOk i (completionFile p))"
  shows "completionFile T \<in> set (requested (since s (checkPainterCompletion cfg i s)))"
    and "\<not> isColorDetectionEnabled (checkPainterCompletion cfg i s)"
    and "painterCollectionStatus (checkPainterCompletion cfg i s) ! T = replicate 5 False"
proof -
  let ?a = "fold (completionStep cfg i) [0..<T] s"
  let ?b = "completionStep cfg i T ?a"
  let ?c = "fold (completionStep cfg i) [Suc T..<6] ?b"
  have whole: "checkPainterCompletion cfg i s = ?c"
    unfolding checkPainterCompletion_def upt_split6 [OF assms(3)] by simp
  have fa: "currentMode ?a = PAINTER_COLLECTION \<and>
         requested (events ?a) =
           requested (events s) @
           map completionFile (filter (rowComplete (painterCollectionStatus s)) [0..<T]) \<and>
         painterCollectionStatus ?a =
           fold (\<lambda>p g. g[p := replicate 5 False])
             (filter (rowComplete (painterCollectionStatus s)) [0..<T])
             (painterCollectionStatus s)"
    using assms(1,5) by (intro fold_completion_failed) simp_all
  have la: "length (painterCollectionStatus ?a) = 6"
    using assms(2) by (rule fold_completion_length)
  have "painterCollectionStatus ?a ! T = painterCollectionStatus s ! T"
    using fa assms(2,3) by (simp add: fold_reset_nth)
  then have ra: "rowComplete (painterCollectionStatus ?a) T"
    using assms(4) rowComplete_row by blast
  have ma: "currentMode ?a = PAINTER_COLLECTION"
    using fa by simp
  have req: "requested (since ?a ?b) = [completionFile T]"
    using ma ra by (intro requested_since completionStep_prefix completionStep_request)
  have p1: "prefix (events s) (events ?a)"
    by (rule fold_completion_prefix)
  have p2: "prefix (events ?a) (events ?b)"
    by (rule completionStep_prefix)
  have p3: "prefix (events ?b) (events ?c)"
    by (rule fold_completion_prefix)
  have "since s ?c = since s ?a @ since ?a ?b @ since ?b ?c"
    using since_trans [OF p1 prefix_order.trans [OF p2 p3]] since_trans [OF p2 p3] by simp
  then show "completionFile T \<in> set (requested (since s (checkPainterCompletion cfg i s)))"
    unfolding whole by (simp add: requested_append req)
  have "\<not> isColorDetectionEnabled ?b"
    using ra by (rule completionStep_sensing_off)
  then show "\<not> isColorDetectionEnabled (checkPainterCompletion cfg i s)"
    unfolding whole by (rule fold_completion_sensing)
  have lb: "length (painterCollectionStatus ?b) = 6"
    using la by (rule completionStep_length)
  have "painterCollectionStatus ?b ! T = replicate 5 False"
    using completionStep_grid [OF ra, of cfg i] la assms(3)
    by (auto simp add: allFalse_reset allFalse_nth)
  then show "painterCollectionStatus (checkPainterCompletion cfg i s) ! T = replicate 5 False"
    unfolding whole using lb assms(3) by (intro fold_completion_keeps_cleared)
qed

lemma markCollected_fields:
  "events (markCollected p c s) = events s"
  "currentMode (markCollected p c s) = currentMode s"
  by (simp_all add: markCollected_def Let_def)

lemma checkPainterColor_fields:
  "events (checkPainterColor ts s) = events s"
  "currentMode (checkPainterColor ts s) = currentMode s"
  by (induction ts) (simp_all add: markCollected_fields Let_def)

lemma probePainters_fields:
  "events (probePainters cfg s) = events s"
  "currentMode (probePainters cfg s) = currentMode s"
  by (simp_all add: probePainters_def Let_def checkPainterColor_fields)

lemma readColor_fields:
  "events (readColor i s) = events s"
  "currentMode (readColor i s) = currentMode s"
  "painterCollectionStatus (readColor i s) = painterCollectionStatus s"
  by (simp_all add: readColor_def split: prod.splits)

lemma completionFile_distinct: "distinct (map completionFile [0..<6])"
  by code_simp

lemma completionFile_inj:
  assumes "p < 6" and "q < 6" and "completionFile p = completionFile q"
  shows "p = q"
  using assms nth_eq_iff_index_eq [OF completionFile_distinct, of p q] by simp

text \<open>
  The scan when a complete row starts playing and no earlier complete row does: the
  assets of the complete rows up to that one are requested, then every row is cleared
  and the scan finds nothing more.
\<close>

lemma scan_started_at:
  assumes "currentMode s = PAINTER_COLLECTION" and "length (painterCollectionStatus s) = 6"
    and "E < 6" and "rowComplete (painterCollectionStatus s) E"
    and "\<forall>p<E. rowComplete (painterCollectionStatus s) p \<longrightarrow>
           \<not> (sdExists i (completionFile p) \<and> connectOk i (completionFile p))"
    and "sdExists i (completionFile E)" and "connectOk i (completionFile E)"
  shows "requested (since s (checkPainterCompletion cfg i s)) =
           map completionFile (filter (rowComplete (painterCollectionStatus s)) [0..<E]) @
           [completionFile E]"
    and "painterCollectionStatus (checkPainterCompletion cfg i s) =
           replicate 6 (replicate 5 False)"
    and "\<not> isColorDetectionEnabled (checkPainterCompletion cfg i s)"
proof -
  let ?a = "fold (completionStep cfg i) [0..<E] s"
  let ?b = "completionStep cfg i E ?a"
  have fa: "currentMode ?a = PAINTER_COLLECTION \<and>
         requested (events ?a) =
           requested (events s) @
           map completionFile (filter (rowComplete (painterCollectionStatus s)) [0..<E]) \<and>
         painterCollectionStatus ?a =
           fold (\<lambda>p g. g[p := replicate 5 False])
             (filter (rowComplete (painterCollectionStatus s)) [0..<E])
             (painterCollectionStatus s)"
    using assms(1,5) by (intro fold_completion_failed) simp_all
  have "painterCollectionStatus ?a ! E = painterCollectionStatus s ! E"
    using fa assms(2,3) by (simp add: fold_reset_nth)
  then have ra: "rowComplete (painterCollectionStatus ?a) E"
    using assms(4) rowComplete_row by blast
  have ma: "currentMode ?a = PAINTER_COLLECTION"
    using fa by simp
  have gb: "painterCollectionStatus ?b = allFalse"
    using ma ra assms(6,7) by (rule completionStep_started)
  have after: "fold (completionStep cfg i) [Suc E..<6] ?b = ?b"
    by (intro fold_completion_noop) (simp add: gb rowComplete_allFalse)
  have whole: "checkPainterCompletion cfg i s = ?b"
    unfolding checkPainterCompletion_def upt_split6 [OF assms(3)]
    by (simp add: after)
  have "requested (events ?b) = requested (events ?a) @ [completionFile E]"
    using ma ra by (rule completionStep_request)
  then have rb: "requested (events ?b) =
      requested (events s) @
      (map completionFile (filter (rowComplete (painterCollectionStatus s)) [0..<E]) @
       [completionFile E])"
    using fa by simp
  have p1: "prefix (events s) (events ?a)"
    by (rule fold_completion_prefix)
  have p2: "prefix (events ?a) (events ?b)"
    by (rule completionStep_prefix)
  have pb: "prefix (events s) (events ?b)"
    using p1 p2 by (rule prefix_order.trans)
  show "requested (since s (checkPainterCompletion cfg i s)) =
           map completionFile (filter (rowComplete (painterCollectionStatus s)) [0..<E]) @
           [completionFile E]"
    unfolding whole using pb rb by (rule requested_since)
  show "painterCollectionStatus (checkPainterCompletion cfg i s) =
           replicate 6 (replicate 5 False)"
    unfolding whole gb allFalse_def ..
  show "\<not> isColorDetectionEnabled (checkPainterCompletion cfg i s)"
    unfolding whole using ra by (rule completionStep_sensing_off)
qed

lemma scan_started_skips:
  assumes "currentMode s = PAINTER_COLLECTION" and "length (painterCollectionStatus s) = 6"
    and "E < T" and "T < 6" and "rowComplete (painterCollectionStatus s) E"
    and "\<forall>p<E. rowComplete (painterCollectionStatus s) p \<longrightarrow>
           \<not> (sdExists i (completionFile p) \<and> connectOk i (completionFile p))"
    and "sdExists i (completionFile E)" and "connectOk i (completionFile E)"
  shows "completionFile T \<notin> set (requested (since s (checkPainterCompletion cfg i s)))"
proof -
  have e: "E < 6" using assms(3,4) by simp
  have "completionFile T \<noteq> completionFile p" if "p \<le> E" for p
    using completionFile_inj [of T p] that assms(3,4) by auto
  then have "completionFile T \<notin> completionFile ` {p. p \<le> E}"
    by blast
  moreover have "set (map completionFile
        (filter (rowComplete (painterCollectionStatus s)) [0..<E]) @ [completionFile E]) \<subseteq>
      completionFile ` {p. p \<le> E}"
    by auto
  ultimately show ?thesis
    unfolding scan_started_at(1) [OF assms(1,2) e assms(5-8)]
    by blast
qed

lemma playTrack_fault: "fault (playTrack i f s) = fault s"
  by (simp add: playTrack_def emit_def Let_def resetAllPainterCollections_def)

lemma completionStep_fault:
  "currentMode s = PAINTER_COLLECTION \<Longrightarrow> fault (completionStep cfg i p s) = fault s"
  by (cases "rowComplete (painterCollectionStatus s) p")
     (simp_all add: completionStep_painter completionStep_incomplete playTrack_fault emit_def)

lemma fold_completion_fault:
  "currentMode s = PAINTER_COLLECTION \<Longrightarrow>
   fault (fold (completionStep cfg i) ps s) = fault s"
  by (induction ps arbitrary: s) (simp_all add: completionStep_fault completionStep_mode)

text \<open>
  Claim C3, as the code has it. Take a tick that senses in the collection mode (\<open>s3\<close> is
  the device after the input handlers, \<open>m\<close> the device after the six probes of the
  tables, with no write outside the arrays so far), on which a match made the last
  missing sub-element of theme \<open>T\<close> true. If every earlier theme in table order that is
  complete as well fails to start playing, the same tick requests the completion asset
  of \<open>T\<close>. If an earlier complete theme \<open>E\<close> starts playing its asset (the first one that
  does), the asset of \<open>E\<close> is requested, the asset of \<open>T\<close> is not, and the whole grid is
  reset. In both cases the tick switches sensing off and leaves the row of \<open>T\<close>
  all-false, and after the tick no row is fully true. No run from boot that stays inside
  the arrays ends a tick with a fully-true row.
\<close>

theorem completion_within_tick:
  assumes "s3 = handleInput cfg i s"
    and "m = probePainters cfg (emit EvShowColor (readColor i s3))"
    and "\<not> asleep s3" and "isColorDetectionEnabled s3"
    and "currentMode s3 = PAINTER_COLLECTION"
    and "length (painterCollectionStatus s3) = 6"
    and "\<not> fault m"
    and "T < 6"
    and "\<not> rowComplete (painterCollectionStatus s3) T"
    and "rowComplete (painterCollectionStatus m) T"
  shows "((\<forall>p<T. rowComplete (painterCollectionStatus m) p \<longrightarrow>
             \<not> (sdExists i (completionFile p) \<and> connectOk i (completionFile p))) \<longrightarrow>
          completionFile T \<in> set (requested (since s3 (loop cfg i s)))) \<and>
         (\<forall>E<T. rowComplete (painterCollectionStatus m) E \<and>
                sdExists i (completionFile E) \<and> connectOk i (completionFile E) \<and>
                (\<forall>p<E. rowComplete (painterCollectionStatus m) p \<longrightarrow>
                   \<not> (sdExists i (completionFile p) \<and> connectOk i (completionFile p))) \<longrightarrow>
            completionFile E \<in> set (requested (since s3 (loop cfg i s))) \<and>
            completionFile T \<notin> set (requested (since s3 (loop cfg i s))) \<and>
            painterCollectionStatus (loop cfg i s) = replicate 6 (replicate 5 False)) \<and>
         \<not> isColorDetectionEnabled (loop cfg i s) \<and>
         painterCollectionStatus (loop cfg i s) ! T = replicate 5 False \<and>
         noneComplete (loop cfg i s) \<and>
         \<not> fault (loop cfg i s) \<and>
         (\<not> fault (run cfg boot ticks) \<longrightarrow> noneComplete (run cfg boot ticks))"
proof -
  let ?c = "checkPainterCompletion cfg i m"
  let ?st = "\<lambda>p. sdExists i (completionFile p) \<and> connectOk i (completionFile p)"
  let ?rc = "rowComplete (painterCollectionStatus m)"
  have mm: "currentMode m = PAINTER_COLLECTION"
    using assms(2,5) by (simp add: probePainters_fields readColor_fields emit_def)
  have lm: "length (painterCollectionStatus m) = 6"
    using assms(2,6) by (simp add: probePainters_length readColor_fields emit_def)
  have em: "events m = events s3 @ [EvShowColor]"
    using assms(2) by (simp add: probePainters_fields readColor_fields emit_def)
  have sc: "senseAndClassify cfg i s3 = ?c"
    using assms(2,5) by (simp add: senseAndClassify_def Let_def readColor_fields emit_def)
  have lp: "loop cfg i s = (if running2 i then emit EvAudioLoop ?c else ?c)"
    using assms(1,3,4) sc by (simp add: loop_def service_def Let_def)
  have pc: "prefix (events m) (events ?c)"
    unfolding checkPainterCompletion_def by (rule fold_completion_prefix)
  have ec: "events ?c = events s3 @ [EvShowColor] @ since m ?c"
    using since_prefix [OF pc] em by simp
  have "events (loop cfg i s) =
          events s3 @ [EvShowColor] @ since m ?c @ (if running2 i then [EvAudioLoop] else [])"
    unfolding lp by (simp add: ec emit_def)
  then have "since s3 (loop cfg i s) =
          [EvShowColor] @ since m ?c @ (if running2 i then [EvAudioLoop] else [])"
    by (rule since_append)
  then have rq: "requested (since s3 (loop cfg i s)) = requested (since m ?c)"
    by (simp add: requested_append)
  have gl: "painterCollectionStatus (loop cfg i s) = painterCollectionStatus ?c"
    and dl: "isColorDetectionEnabled (loop cfg i s) = isColorDetectionEnabled ?c"
    and fl: "fault (loop cfg i s) = fault ?c"
    by (simp_all add: lp emit_def)
  have reach: "completionFile T \<in> set (requested (since s3 (loop cfg i s)))"
    if "\<forall>p<T. ?rc p \<longrightarrow> \<not> ?st p"
    using scan_reaches(1) [OF mm lm assms(8,10) that, of cfg] rq by simp
  have skip: "completionFile E \<in> set (requested (since s3 (loop cfg i s))) \<and>
              completionFile T \<notin> set (requested (since s3 (loop cfg i s))) \<and>
              painterCollectionStatus (loop cfg i s) = replicate 6 (replicate 5 False) \<and>
              \<not> isColorDetectionEnabled (loop cfg i s)"
    if "E < T" and "?rc E" and "?st E" and "\<forall>p<E. ?rc p \<longrightarrow> \<not> ?st p" for E
  proof -
    have e: "E < 6" using that(1) assms(8) by simp
    have x: "sdExists i (completionFile E)" "connectOk i (completionFile E)"
      using that(3) by simp_all
    note st = scan_started_at [OF mm lm e that(2,4) x, of cfg]
    have "completionFile T \<notin> set (requested (since m ?c))"
      using mm lm that(1) assms(8) that(2,4) x by (rule scan_started_skips)
    then show ?thesis
      using st by (simp add: rq gl dl)
  qed
  have both: "\<not> isColorDetectionEnabled (loop cfg i s) \<and>
              painterCollectionStatus (loop cfg i s) ! T = replicate 5 False"
  proof (cases "\<exists>E. E < T \<and> ?rc E \<and> ?st E")
    case True
    then obtain E where E: "E < T \<and> ?rc E \<and> ?st E" and least: "\<forall>p<E. \<not> (p < T \<and> ?rc p \<and> ?st p)"
      using exists_least_iff [of "\<lambda>E. E < T \<and> ?rc E \<and> ?st E"] by blast
    have "\<forall>p<E. ?rc p \<longrightarrow> \<not> ?st p"
      using least E by auto
    then show ?thesis
      using skip [of E] E assms(8) by simp
  next
    case False
    then have none: "\<forall>p<T. ?rc p \<longrightarrow> \<not> ?st p"
      by blast
    show ?thesis
      using scan_reaches(2,3) [OF mm lm assms(8,10) none, of cfg] by (simp add: gl dl)
  qed
  have n: "noneComplete (loop cfg i s)"
    using checkPainterCompletion_noneComplete [OF lm, of cfg i]
    by (simp add: lp emit_def noneComplete_def)
  have nf: "\<not> fault (loop cfg i s)"
    using assms(7) mm by (simp add: fl checkPainterCompletion_def fold_completion_fault)
  have "noneComplete (run cfg boot ticks)"
    using noneComplete_boot by (rule noneComplete_run)
  then show ?thesis using reach skip both n nf by blast
qed

lemma collectBoth_reaches: "run demoConfig boot collectBoth = loop demoConfig lastOfBoth fourOfEach"
  by code_simp

lemma collectBoth_fourOfEach:
  "\<not> rowComplete (painterCollectionStatus fourOfEach) 0 \<and>
   \<not> rowComplete (painterCollectionStatus fourOfEach) 1 \<and>
   rowComplete (painterCollectionStatus
     (probePainters demoConfig (emit EvShowColor (readColor lastOfBoth fourOfEach)))) 0 \<and>
   rowComplete (painterCollectionStatus
     (probePainters demoConfig (emit EvShowColor (readColor lastOfBoth fourOfEach)))) 1 \<and>
   \<not> fault (probePainters demoConfig (emit EvShowColor (readColor lastOfBoth fourOfEach)))"
  by code_simp

text \<open>
  The theorem at the last tick of \<open>collectBoth\<close>, for Dali and for Gogh: both rows are
  completed by the tick, Dali's asset starts playing and Gogh's is not requested.
\<close>

theorem completion_within_tick_witness:
  "\<not> asleep (handleInput demoConfig lastOfBoth fourOfEach) \<and>
   currentMode (handleInput demoConfig lastOfBoth fourOfEach) = PAINTER_COLLECTION \<and>
   \<not> rowComplete (painterCollectionStatus (handleInput demoConfig lastOfBoth fourOfEach)) 0 \<and>
   \<not> rowComplete (painterCollectionStatus (handleInput demoConfig lastOfBoth fourOfEach)) 1 \<and>
   ''/P_Dali.mp3'' \<in> set (requested
      (since (handleInput demoConfig lastOfBoth fourOfEach)
         (loop demoConfig lastOfBoth fourOfEach))) \<and>
   ''/P_Gogh.mp3'' \<notin> set (requested
      (since (handleInput demoConfig lastOfBoth fourOfEach)
         (loop demoConfig lastOfBoth fourOfEach))) \<and>
   \<not> isColorDetectionEnabled (loop demoConfig lastOfBoth fourOfEach) \<and>
   painterCollectionStatus (loop demoConfig lastOfBoth fourOfEach) =
     replicate 6 (replicate 5 False) \<and>
   \<not> fault (run demoConfig boot collectBoth) \<and>
   noneComplete (run demoConfig boot collectBoth)"
proof -
  let ?s3 = "handleInput demoConfig lastOfBoth fourOfEach"
  let ?m = "probePainters demoConfig (emit EvShowColor (readColor lastOfBoth ?s3))"
  have s3: "?s3 = fourOfEach"
    by (simp add: handleInput_def handleButton_def handleEncoder_def Let_def lastOfBoth_def
        tickS_def tick_def fourOfEach_def readEncoded_def decodeDir_def)
  have h: "\<not> asleep ?s3" "isColorDetectionEnabled ?s3" "currentMode ?s3 = PAINTER_COLLECTION"
    "length (painterCollectionStatus ?s3) = 6"
    unfolding s3 by (simp_all add: fourOfEach_def)
  have nfm: "\<not> fault ?m"
    unfolding s3 using collectBoth_fourOfEach by blast
  have t0: "(0::nat) < 6" and t1: "(1::nat) < 6"
    by simp_all
  have h0: "\<not> rowComplete (painterCollectionStatus ?s3) 0"
    and h1: "\<not> rowComplete (painterCollectionStatus ?s3) 1"
    unfolding s3 using collectBoth_fourOfEach by blast+
  have m0: "rowComplete (painterCollectionStatus ?m) 0"
    and m1: "rowComplete (painterCollectionStatus ?m) 1"
    unfolding s3 using collectBoth_fourOfEach by blast+
  have f: "completionFile 0 = ''/P_Dali.mp3''" "completionFile 1 = ''/P_Gogh.mp3''"
    by (simp_all add: completionFile_def painterNames_def fitName_def)
  have ok: "sdExists lastOfBoth (completionFile 0)" "connectOk lastOfBoth (completionFile 0)"
    by (simp_all add: lastOfBoth_def tickS_def tick_def)
  note a = completion_within_tick [OF refl refl h nfm t0 h0 m0, of collectBoth]
  note b = completion_within_tick [OF refl refl h nfm t1 h1 m1, of collectBoth]
  have dali: "completionFile 0 \<in> set (requested (since ?s3 (loop demoConfig lastOfBoth fourOfEach)))"
    using a by simp
  have gogh: "completionFile 1 \<notin> set (requested (since ?s3 (loop demoConfig lastOfBoth fourOfEach))) \<and>
      painterCollectionStatus (loop demoConfig lastOfBoth fourOfEach) =
        replicate 6 (replicate 5 False)"
    using b m0 ok by simp
  have rest: "\<not> isColorDetectionEnabled (loop demoConfig lastOfBoth fourOfEach) \<and>
      \<not> fault (loop demoConfig lastOfBoth fourOfEach) \<and>
      (\<not> fault (run demoConfig boot collectBoth) \<longrightarrow> noneComplete (run demoConfig boot collectBoth))"
    using a by blast
  show ?thesis
    using dali gogh rest h(1,3) h0 h1 unfolding f
    by (simp add: collectBoth_reaches del: replicate.simps)
qed

text \<open>
  Claim C3 as stated fails for a theme that completes on the same tick as an earlier
  one whose asset starts playing: on the last tick of \<open>collectBoth\<close> the probe of
  Gogh's table makes the last missing sub-element of Gogh's row true, and the only
  request of the tick is Dali's asset.
\<close>

theorem second_theme_completes_silently:
  "run demoConfig boot collectBoth = loop demoConfig lastOfBoth fourOfEach \<and>
   painterCollectionStatus fourOfEach ! 1 = [True, True, True, True, False] \<and>
   isColorDetectionEnabled fourOfEach \<and>
   currentMode fourOfEach = PAINTER_COLLECTION \<and>
   painterCollectionStatus
     (checkPainterColor (goghColors demoConfig) (readColor lastOfBoth fourOfEach)) ! 1 =
     [True, True, True, True, True] \<and>
   requested (since fourOfEach (loop demoConfig lastOfBoth fourOfEach)) = [''/P_Dali.mp3'']"
proof -
  have "painterCollectionStatus
     (checkPainterColor (goghColors demoConfig) (readColor lastOfBoth fourOfEach)) ! 1 =
     [True, True, True, True, True]"
    by code_simp
  moreover have "requested (since fourOfEach (loop demoConfig lastOfBoth fourOfEach)) =
     [''/P_Dali.mp3'']"
    by code_simp
  ultimately show ?thesis
    by (simp add: collectBoth_reaches) (simp add: fourOfEach_def)
qed

subsection \<open>Holds of the button\<close>

text \<open>
  The tick of the press edge is a tick with the button held, from the state in which the
  press has been recorded.
\<close>

lemma handleButton_pressed:
  assumes "\<not> button i" and "lastButtonState s"
  shows "handleButton cfg i s = handleButton cfg i (pressed (nowButton i) s)"
proof -
  have "handleButton cfg i (pressed (nowButton i) s) = pressed (nowButton i) s"
    using assms(1) by (simp add: handleButton_def Let_def pressed_def)
  then show ?thesis
    using handleButton_press [OF assms, of cfg] by (simp add: pressed_def)
qed

lemma loop_pressed:
  assumes "\<not> button i" and "lastButtonState s"
  shows "loop cfg i s = loop cfg i (pressed (nowButton i) s)"
proof -
  have hb: "handleButton cfg i s = pressed (nowButton i) s"
    using handleButton_press [OF assms, of cfg] by (simp add: pressed_def)
  have hb': "handleButton cfg i (pressed (nowButton i) s) = pressed (nowButton i) s"
    using handleButton_pressed [OF assms, of cfg] hb by simp
  show ?thesis
    by (simp add: loop_def handleInput_def hb hb')
qed

lemma held_pressed: "\<not> asleep s \<Longrightarrow> held t (pressed t s)"
  by (simp add: held_def pressed_def)

lemma pressed_counts:
  "cnt e (pressed t s) = cnt e s" "cntVol (pressed t s) = cntVol s"
  "isLongPressing (pressed t s)" "\<not> volumeAdjustedWhilePressed (pressed t s)"
  "currentVolume (pressed t s) = currentVolume s"
  "lastEncoded (pressed t s) = lastEncoded s"
  by (simp_all add: pressed_def cnt_def cntVol_def)

text \<open>A tick with the button held, before the sleep threshold.\<close>

lemma held_handleButton:
  assumes "held t s" and "\<not> button i" and "nowButton i - t < SLEEP_PRESS_DURATION"
  shows "handleButton cfg i s =
           (if isLongPressing s \<and> MODE_SWITCH_PRESS_DURATION \<le> nowButton i - t
            then (if \<not> volumeAdjustedWhilePressed s then switchMode s else s)
                   \<lparr>isLongPressing := False\<rparr>
            else s)\<lparr>lastButtonState := False\<rparr>"
proof -
  have "\<not> (isSleepPressing s \<and> SLEEP_PRESS_DURATION \<le> nowButton i - sleepPressStartTime s)"
    using assms(1,3) by (simp add: held_def not_le)
  then show ?thesis
    using handleButton_held [of i s cfg] assms(1,2) by (simp add: held_def)
qed

lemma held_handleButton_facts:
  assumes "held t s" and "\<not> button i" and "nowButton i - t < SLEEP_PRESS_DURATION"
  shows "held t (handleButton cfg i s)"
    and "count_list (events (handleButton cfg i s)) EvSleep = count_list (events s) EvSleep"
    and "count_list (events (handleButton cfg i s)) EvToggle = count_list (events s) EvToggle"
    and "count_list (events (handleButton cfg i s)) EvModeSwitch =
           count_list (events s) EvModeSwitch +
           (if isLongPressing s \<and> MODE_SWITCH_PRESS_DURATION \<le> nowButton i - t \<and>
               \<not> volumeAdjustedWhilePressed s then 1 else 0)"
    and "isLongPressing (handleButton cfg i s) =
           (isLongPressing s \<and> nowButton i - t < MODE_SWITCH_PRESS_DURATION)"
    and "volumeAdjustedWhilePressed (handleButton cfg i s) = volumeAdjustedWhilePressed s"
  using assms(1)
  by (auto simp add: held_handleButton [OF assms] held_def switchMode_fields switchMode_events
      not_le)

lemma held_loop_core:
  assumes "held t s" and "\<not> button i" and "nowButton i - t < SLEEP_PRESS_DURATION"
  shows "inputCore (loop cfg i s) = inputCore (handleEncoder i (handleButton cfg i s))"
  using held_handleButton_facts(1) [OF assms, of cfg]
  by (intro loop_core) (simp add: held_def)

lemma held_tick:
  assumes "held t s" and "\<not> button i" and "nowButton i - t < SLEEP_PRESS_DURATION"
  shows "held t (loop cfg i s)"
    and "cnt EvSleep (loop cfg i s) = cnt EvSleep s"
    and "cnt EvToggle (loop cfg i s) = cnt EvToggle s"
    and "cnt EvModeSwitch (loop cfg i s) =
           cnt EvModeSwitch s +
           (if isLongPressing s \<and> MODE_SWITCH_PRESS_DURATION \<le> nowButton i - t \<and>
               \<not> volumeAdjustedWhilePressed s then 1 else 0)"
    and "isLongPressing (loop cfg i s) =
           (isLongPressing s \<and> nowButton i - t < MODE_SWITCH_PRESS_DURATION)"
    and "lastEncoded (loop cfg i s) = readEncoded i"
proof -
  note core = held_loop_core [OF assms, of cfg]
  note hb = held_handleButton_facts [OF assms, of cfg]
  show "held t (loop cfg i s)"
    using hb(1) inputCoreD(1,2,4,5,6,14) [OF core]
    by (simp add: held_def handleEncoder_button_fields)
  show "cnt EvSleep (loop cfg i s) = cnt EvSleep s"
    using coreD_events(4) [OF core, of EvSleep] hb(2)
    by (simp add: cnt_def handleEncoder_counts)
  show "cnt EvToggle (loop cfg i s) = cnt EvToggle s"
    using coreD_events(4) [OF core, of EvToggle] hb(3)
    by (simp add: cnt_def handleEncoder_counts)
  show "cnt EvModeSwitch (loop cfg i s) =
           cnt EvModeSwitch s +
           (if isLongPressing s \<and> MODE_SWITCH_PRESS_DURATION \<le> nowButton i - t \<and>
               \<not> volumeAdjustedWhilePressed s then 1 else 0)"
    using coreD_events(4) [OF core, of EvModeSwitch] hb(4)
    by (simp add: cnt_def handleEncoder_counts)
  show "isLongPressing (loop cfg i s) =
           (isLongPressing s \<and> nowButton i - t < MODE_SWITCH_PRESS_DURATION)"
    using inputCoreD(3) [OF core] hb(5) by (simp add: handleEncoder_button_fields)
  show "lastEncoded (loop cfg i s) = readEncoded i"
    using inputCoreD(9) [OF core] by (simp add: handleEncoder_lastEncoded)
qed

text \<open>The tick on which a hold reaches the sleep threshold.\<close>

lemma sleep_tick:
  assumes "held t s" and "\<not> button i" and "SLEEP_PRESS_DURATION \<le> nowButton i - t"
  shows "loop cfg i s = enterDeepSleep (prepareForSleep (emit EvSleep s))"
proof -
  have "handleButton cfg i s = enterDeepSleep (prepareForSleep (emit EvSleep s))"
    using assms by (intro handleButton_held_sleep) (simp_all add: held_def)
  then show ?thesis
    by (simp add: loop_def handleInput_def enterDeepSleep_def)
qed

lemma sleep_tick_facts:
  assumes "held t s" and "\<not> button i" and "SLEEP_PRESS_DURATION \<le> nowButton i - t"
  shows "asleep (loop cfg i s)"
    and "cnt EvSleep (loop cfg i s) = cnt EvSleep s + 1"
    and "cnt EvToggle (loop cfg i s) = cnt EvToggle s"
    and "cnt EvModeSwitch (loop cfg i s) = cnt EvModeSwitch s"
  by (simp_all add: sleep_tick [OF assms] enterDeepSleep_def prepareForSleep_def emit_def
      cnt_def)

lemma run_asleep: "asleep s \<Longrightarrow> run cfg s ticks = s"
  by (cases ticks) simp_all

lemma run_append:
  "run cfg s (xs @ ys) = run cfg (run cfg s xs) ys"
proof (induction xs arbitrary: s)
  case Nil
  show ?case by simp
next
  case (Cons x xs)
  show ?case
  proof (cases "asleep s")
    case True
    then show ?thesis by (simp add: run_asleep)
  next
    case False
    then show ?thesis using Cons by simp
  qed
qed

lemma held_run:
  assumes "held t s"
    and "\<forall>h \<in> set hs. \<not> button h \<and> nowButton h - t < SLEEP_PRESS_DURATION"
  shows "held t (run cfg s hs) \<and>
         cnt EvSleep (run cfg s hs) = cnt EvSleep s \<and>
         cnt EvToggle (run cfg s hs) = cnt EvToggle s \<and>
         cnt EvModeSwitch (run cfg s hs) + (if isLongPressing (run cfg s hs) then 1 else 0) \<le>
           cnt EvModeSwitch s + (if isLongPressing s then 1 else 0) \<and>
         ((\<forall>h \<in> set hs. nowButton h - t < MODE_SWITCH_PRESS_DURATION) \<longrightarrow>
            cnt EvModeSwitch (run cfg s hs) = cnt EvModeSwitch s)"
  using assms
proof (induction hs arbitrary: s)
  case Nil
  then show ?case by simp
next
  case (Cons h hs)
  have b: "\<not> button h" and e: "nowButton h - t < SLEEP_PRESS_DURATION"
    using Cons.prems(2) by simp_all
  note tick = held_tick [OF Cons.prems(1) b e, of cfg]
  have awake: "\<not> asleep s"
    using Cons.prems(1) by (simp add: held_def)
  have ih: "held t (run cfg (loop cfg h s) hs) \<and>
         cnt EvSleep (run cfg (loop cfg h s) hs) = cnt EvSleep (loop cfg h s) \<and>
         cnt EvToggle (run cfg (loop cfg h s) hs) = cnt EvToggle (loop cfg h s) \<and>
         cnt EvModeSwitch (run cfg (loop cfg h s) hs) +
           (if isLongPressing (run cfg (loop cfg h s) hs) then 1 else 0) \<le>
           cnt EvModeSwitch (loop cfg h s) + (if isLongPressing (loop cfg h s) then 1 else 0) \<and>
         ((\<forall>h \<in> set hs. nowButton h - t < MODE_SWITCH_PRESS_DURATION) \<longrightarrow>
            cnt EvModeSwitch (run cfg (loop cfg h s) hs) = cnt EvModeSwitch (loop cfg h s))"
    using Cons.prems(2) by (intro Cons.IH tick(1)) simp
  have step: "cnt EvModeSwitch (loop cfg h s) + (if isLongPressing (loop cfg h s) then 1 else 0) \<le>
              cnt EvModeSwitch s + (if isLongPressing s then 1 else 0)"
    using tick(4,5) by (auto simp add: not_le)
  have early: "nowButton h - t < MODE_SWITCH_PRESS_DURATION \<Longrightarrow>
               cnt EvModeSwitch (loop cfg h s) = cnt EvModeSwitch s"
    using tick(4) by (auto simp add: not_le [symmetric])
  show ?case
    using ih step early awake tick(2,3) by auto
qed

lemma handleButton_cntVol: "cntVol (handleButton cfg i s) = cntVol s"
  by (simp add: cntVol_def handleButton_encoder_fields)

lemma held_tick_volume:
  assumes "held t s" and "\<not> button i" and "nowButton i - t < SLEEP_PRESS_DURATION"
  shows "volumeAdjustedWhilePressed s \<Longrightarrow> volumeAdjustedWhilePressed (loop cfg i s)"
    and "cntVol s \<le> cntVol (loop cfg i s)"
    and "cntVol s < cntVol (loop cfg i s) \<Longrightarrow> volumeAdjustedWhilePressed (loop cfg i s)"
proof -
  note core = held_loop_core [OF assms, of cfg]
  note hb = held_handleButton_facts [OF assms, of cfg]
  show "volumeAdjustedWhilePressed s \<Longrightarrow> volumeAdjustedWhilePressed (loop cfg i s)"
    using inputCoreD(7) [OF core] hb(6) handleEncoder_flag_mono [of "handleButton cfg i s" i]
    by simp
  show "cntVol s \<le> cntVol (loop cfg i s)"
    using inputCore_cntVol [OF core] handleEncoder_cntVol_mono [of "handleButton cfg i s" i]
    by (simp add: handleButton_cntVol)
  show "cntVol s < cntVol (loop cfg i s) \<Longrightarrow> volumeAdjustedWhilePressed (loop cfg i s)"
    using inputCore_cntVol [OF core] inputCoreD(7) [OF core]
      handleEncoder_cntVol_flag [of "handleButton cfg i s" i]
    by (simp add: handleButton_cntVol)
qed

lemma sleep_tick_cntVol:
  assumes "held t s" and "\<not> button i" and "SLEEP_PRESS_DURATION \<le> nowButton i - t"
  shows "cntVol (loop cfg i s) = cntVol s"
  by (simp add: sleep_tick [OF assms] enterDeepSleep_def prepareForSleep_def emit_def
      cntVol_def)

text \<open>Any tick with the button held, whatever the time.\<close>

lemma hold_tick:
  assumes "held t s" and "\<not> button i"
  shows "asleep (loop cfg i s) \<or> held t (loop cfg i s)"
    and "cnt EvToggle (loop cfg i s) = cnt EvToggle s"
    and "cntVol s \<le> cntVol (loop cfg i s)"
    and "cntVol s < cntVol (loop cfg i s) \<Longrightarrow>
           asleep (loop cfg i s) \<or> volumeAdjustedWhilePressed (loop cfg i s)"
    and "volumeAdjustedWhilePressed s \<Longrightarrow>
           cnt EvModeSwitch (loop cfg i s) = cnt EvModeSwitch s \<and>
           (asleep (loop cfg i s) \<or> volumeAdjustedWhilePressed (loop cfg i s))"
proof -
  consider (early) "nowButton i - t < SLEEP_PRESS_DURATION"
    | (late) "SLEEP_PRESS_DURATION \<le> nowButton i - t"
    by (auto simp add: not_le [symmetric])
  then have "(asleep (loop cfg i s) \<or> held t (loop cfg i s)) \<and>
    cnt EvToggle (loop cfg i s) = cnt EvToggle s \<and>
    cntVol s \<le> cntVol (loop cfg i s) \<and>
    (cntVol s < cntVol (loop cfg i s) \<longrightarrow>
           asleep (loop cfg i s) \<or> volumeAdjustedWhilePressed (loop cfg i s)) \<and>
    (volumeAdjustedWhilePressed s \<longrightarrow>
           cnt EvModeSwitch (loop cfg i s) = cnt EvModeSwitch s \<and>
           (asleep (loop cfg i s) \<or> volumeAdjustedWhilePressed (loop cfg i s)))"
  proof cases
    case early
    show ?thesis
      using held_tick(1,3,4) [OF assms early, of cfg] held_tick_volume [OF assms early, of cfg]
      by simp
  next
    case late
    show ?thesis
      using sleep_tick_facts [OF assms late, of cfg] sleep_tick_cntVol [OF assms late, of cfg]
      by simp
  qed
  then show "asleep (loop cfg i s) \<or> held t (loop cfg i s)"
    and "cnt EvToggle (loop cfg i s) = cnt EvToggle s"
    and "cntVol s \<le> cntVol (loop cfg i s)"
    and "cntVol s < cntVol (loop cfg i s) \<Longrightarrow>
           asleep (loop cfg i s) \<or> volumeAdjustedWhilePressed (loop cfg i s)"
    and "volumeAdjustedWhilePressed s \<Longrightarrow>
           cnt EvModeSwitch (loop cfg i s) = cnt EvModeSwitch s \<and>
           (asleep (loop cfg i s) \<or> volumeAdjustedWhilePressed (loop cfg i s))"
    by simp_all
qed

lemma hold_run:
  assumes "asleep s \<or> held t s" and "\<forall>h \<in> set hs. \<not> button h"
  shows "(asleep (run cfg s hs) \<or> held t (run cfg s hs)) \<and>
         cnt EvToggle (run cfg s hs) = cnt EvToggle s \<and>
         cntVol s \<le> cntVol (run cfg s hs) \<and>
         (cntVol s < cntVol (run cfg s hs) \<longrightarrow>
            asleep (run cfg s hs) \<or> volumeAdjustedWhilePressed (run cfg s hs)) \<and>
         (asleep s \<or> volumeAdjustedWhilePressed s \<longrightarrow>
            cnt EvModeSwitch (run cfg s hs) = cnt EvModeSwitch s \<and>
            (asleep (run cfg s hs) \<or> volumeAdjustedWhilePressed (run cfg s hs)))"
  using assms
proof (induction hs arbitrary: s)
  case Nil
  then show ?case by simp
next
  case (Cons h hs)
  show ?case
  proof (cases "asleep s")
    case True
    then show ?thesis by simp
  next
    case False
    then have hs: "held t s" using Cons.prems(1) by simp
    have b: "\<not> button h" using Cons.prems(2) by simp
    note tick = hold_tick [OF hs b, of cfg]
    have ih: "(asleep (run cfg (loop cfg h s) hs) \<or> held t (run cfg (loop cfg h s) hs)) \<and>
         cnt EvToggle (run cfg (loop cfg h s) hs) = cnt EvToggle (loop cfg h s) \<and>
         cntVol (loop cfg h s) \<le> cntVol (run cfg (loop cfg h s) hs) \<and>
         (cntVol (loop cfg h s) < cntVol (run cfg (loop cfg h s) hs) \<longrightarrow>
            asleep (run cfg (loop cfg h s) hs) \<or>
            volumeAdjustedWhilePressed (run cfg (loop cfg h s) hs)) \<and>
         (asleep (loop cfg h s) \<or> volumeAdjustedWhilePressed (loop cfg h s) \<longrightarrow>
            cnt EvModeSwitch (run cfg (loop cfg h s) hs) = cnt EvModeSwitch (loop cfg h s) \<and>
            (asleep (run cfg (loop cfg h s) hs) \<or>
             volumeAdjustedWhilePressed (run cfg (loop cfg h s) hs)))"
      using Cons.prems(2) tick(1) by (intro Cons.IH) simp_all
    have adj: "asleep (run cfg (loop cfg h s) hs) \<or>
               volumeAdjustedWhilePressed (run cfg (loop cfg h s) hs)"
      if "cntVol s < cntVol (run cfg (loop cfg h s) hs)"
    proof (cases "cntVol s < cntVol (loop cfg h s)")
      case True
      then show ?thesis using tick(4) ih by blast
    next
      case False
      then have "cntVol (loop cfg h s) < cntVol (run cfg (loop cfg h s) hs)"
        using that tick(3) by simp
      then show ?thesis using ih by blast
    qed
    have flag: "cnt EvModeSwitch (run cfg (loop cfg h s) hs) = cnt EvModeSwitch s \<and>
            (asleep (run cfg (loop cfg h s) hs) \<or>
             volumeAdjustedWhilePressed (run cfg (loop cfg h s) hs))"
      if "volumeAdjustedWhilePressed s"
      using tick(5) [OF that] ih by auto
    show ?thesis
      using False ih tick(2,3) adj flag by auto
  qed
qed

text \<open>The tick on which the button is released.\<close>

lemma release_tick:
  assumes "held t s" and "button i"
  shows "cnt EvToggle (loop cfg i s) =
           cnt EvToggle s +
           (if nowButton i - t < MODE_SWITCH_PRESS_DURATION \<and> \<not> volumeAdjustedWhilePressed s
            then 1 else 0)"
    and "cnt EvModeSwitch (loop cfg i s) = cnt EvModeSwitch s"
    and "cnt EvSleep (loop cfg i s) = cnt EvSleep s"
proof -
  have l: "\<not> lastButtonState s" and a: "\<not> asleep s" and b: "buttonPressStartTime s = t"
    using assms(1) by (simp_all add: held_def)
  note hb = handleButton_release [OF assms(2) l, of cfg]
  have core: "inputCore (loop cfg i s) = inputCore (handleEncoder i (handleButton cfg i s))"
    using hb(1) a by (intro loop_core) simp
  show "cnt EvToggle (loop cfg i s) =
           cnt EvToggle s +
           (if nowButton i - t < MODE_SWITCH_PRESS_DURATION \<and> \<not> volumeAdjustedWhilePressed s
            then 1 else 0)"
    using coreD_events(4) [OF core, of EvToggle] hb(5) b
    by (simp add: cnt_def handleEncoder_counts)
  show "cnt EvModeSwitch (loop cfg i s) = cnt EvModeSwitch s"
    using coreD_events(4) [OF core, of EvModeSwitch] hb(4)
    by (simp add: cnt_def handleEncoder_counts)
  show "cnt EvSleep (loop cfg i s) = cnt EvSleep s"
    using coreD_events(4) [OF core, of EvSleep] hb(3)
    by (simp add: cnt_def handleEncoder_counts)
qed

lemma run_press:
  assumes "\<not> asleep s" and "lastButtonState s" and "\<not> button p"
  shows "run cfg s (p # rest) = run cfg (pressed (nowButton p) s) (p # rest)"
  using assms(1) held_pressed [OF assms(1), of "nowButton p"] loop_pressed [OF assms(3,2), of cfg]
  by (simp add: held_def)

text \<open>What a tick does to the mode and to the sensing flag.\<close>

lemma playAudio_mode: "currentMode (playAudio cfg i n s) = currentMode s"
  by (simp add: playAudio_def Let_def playTrack_mode)

lemma playAudio_sensing:
  "isColorDetectionEnabled (playAudio cfg i n s) = isColorDetectionEnabled s"
  by (simp add: playAudio_def Let_def playTrack_sensing)

lemma checkColor_mode: "currentMode (checkColor cfg i ts s) = currentMode s"
  by (induction ts) (simp_all add: playAudio_mode)

lemma checkColor_sensing:
  "isColorDetectionEnabled (checkColor cfg i ts s) = isColorDetectionEnabled s"
  by (induction ts) (simp_all add: playAudio_sensing)

lemma completionStep_keeps_mode: "currentMode (completionStep cfg i p s) = currentMode s"
  by (simp add: completionStep_def Let_def playAudio_mode blinkLEDs_def emit_def)

lemma fold_completion_keeps_mode:
  "currentMode (fold (completionStep cfg i) ps s) = currentMode s"
  by (induction ps arbitrary: s) (simp_all add: completionStep_keeps_mode)

lemma senseAndClassify_mode: "currentMode (senseAndClassify cfg i s) = currentMode s"
  by (simp add: senseAndClassify_def Let_def checkColor_mode checkPainterCompletion_def
      fold_completion_keeps_mode probePainters_fields readColor_fields emit_def)

lemma service_mode: "currentMode (service cfg i s) = currentMode s"
  by (simp add: service_def Let_def emit_def continuePlayback_def senseAndClassify_mode)

lemma handleEncoder_mode:
  "currentMode (handleEncoder i s) = currentMode s"
  "isColorDetectionEnabled (handleEncoder i s) = isColorDetectionEnabled s"
  by (simp_all add: he_defs)

lemma handleInput_mode:
  "currentMode (handleInput cfg i s) = currentMode (handleButton cfg i s)"
  "isColorDetectionEnabled (handleInput cfg i s) = isColorDetectionEnabled (handleButton cfg i s)"
  by (simp_all add: handleInput_def Let_def handleEncoder_mode restoreOriginalLeds_def emit_def)

lemma loop_mode: "currentMode (loop cfg i s) = currentMode (handleButton cfg i s)"
  by (simp add: loop_def Let_def service_mode handleInput_mode)

lemma switchMode_mode: "currentMode (switchMode s) \<noteq> currentMode s"
  by (cases "currentMode s")
     (simp_all add: switchMode_def emit_def blinkLEDs_def resetAllPainterCollections_def Let_def)

lemma held_tick_mode:
  assumes "held t s" and "\<not> button i" and "nowButton i - t < SLEEP_PRESS_DURATION"
  shows "(currentMode (loop cfg i s) \<noteq> currentMode s) =
           (isLongPressing s \<and> MODE_SWITCH_PRESS_DURATION \<le> nowButton i - t \<and>
            \<not> volumeAdjustedWhilePressed s)"
  using switchMode_mode [of s]
  by (auto simp add: loop_mode held_handleButton [OF assms])

lemma handleEncoder_flag_cntVol:
  "volumeAdjustedWhilePressed (handleEncoder i s) \<Longrightarrow> \<not> volumeAdjustedWhilePressed s \<Longrightarrow>
   cntVol s < cntVol (handleEncoder i s)"
  by (simp add: he_defs cntVol_def split: if_splits)

lemma held_tick_quiet:
  assumes "held t s" and "\<not> button i" and "nowButton i - t < SLEEP_PRESS_DURATION"
    and "\<not> volumeAdjustedWhilePressed s" and "cntVol (loop cfg i s) = cntVol s"
  shows "\<not> volumeAdjustedWhilePressed (loop cfg i s)"
proof -
  note core = held_loop_core [OF assms(1-3), of cfg]
  note hb = held_handleButton_facts [OF assms(1-3), of cfg]
  have "cntVol (handleEncoder i (handleButton cfg i s)) = cntVol (handleButton cfg i s)"
    using inputCore_cntVol [OF core] assms(5) by (simp add: handleButton_cntVol)
  then have "\<not> volumeAdjustedWhilePressed (handleEncoder i (handleButton cfg i s))"
    using handleEncoder_flag_cntVol [of i "handleButton cfg i s"] hb(6) assms(4) by auto
  then show ?thesis
    using inputCoreD(7) [OF core] by simp
qed

text \<open>
  A hold before the sleep threshold during which no volume adjustment is made: the mode
  switch fires, once, exactly when a tick samples the hold at or beyond 3000 ms.
\<close>

lemma held_run_quiet:
  assumes "held t s"
    and "\<forall>h \<in> set hs. \<not> button h \<and> nowButton h - t < SLEEP_PRESS_DURATION"
    and "\<not> volumeAdjustedWhilePressed s"
    and "cntVol (run cfg s hs) = cntVol s"
  shows "cnt EvModeSwitch (run cfg s hs) =
           cnt EvModeSwitch s +
           (if isLongPressing s \<and> (\<exists>h \<in> set hs. MODE_SWITCH_PRESS_DURATION \<le> nowButton h - t)
            then 1 else 0) \<and>
         (currentMode (run cfg s hs) \<noteq> currentMode s) =
           (isLongPressing s \<and> (\<exists>h \<in> set hs. MODE_SWITCH_PRESS_DURATION \<le> nowButton h - t)) \<and>
         isLongPressing (run cfg s hs) =
           (isLongPressing s \<and> (\<forall>h \<in> set hs. nowButton h - t < MODE_SWITCH_PRESS_DURATION))"
  using assms
proof (induction hs arbitrary: s)
  case Nil
  then show ?case by simp
next
  case (Cons h hs)
  have b: "\<not> button h" and e: "nowButton h - t < SLEEP_PRESS_DURATION"
    using Cons.prems(2) by simp_all
  have awake: "\<not> asleep s"
    using Cons.prems(1) by (simp add: held_def)
  note tick = held_tick [OF Cons.prems(1) b e, of cfg]
  note md = held_tick_mode [OF Cons.prems(1) b e, of cfg]
  have rest: "\<forall>h \<in> set hs. \<not> button h" 
    using Cons.prems(2) by simp
  have up: "cntVol (loop cfg h s) \<le> cntVol (run cfg (loop cfg h s) hs)"
    using hold_run [of "loop cfg h s" t hs cfg] tick(1) rest by blast
  have eq: "run cfg s (h # hs) = run cfg (loop cfg h s) hs"
    using awake by simp
  have v1: "cntVol (loop cfg h s) = cntVol s"
    using up held_tick_volume(2) [OF Cons.prems(1) b e, of cfg] Cons.prems(4)
    unfolding eq by simp
  have v2: "cntVol (run cfg (loop cfg h s) hs) = cntVol (loop cfg h s)"
    using v1 Cons.prems(4) unfolding eq by simp
  have q: "\<not> volumeAdjustedWhilePressed (loop cfg h s)"
    using Cons.prems(1) b e Cons.prems(3) v1 by (rule held_tick_quiet)
  have ih: "cnt EvModeSwitch (run cfg (loop cfg h s) hs) =
           cnt EvModeSwitch (loop cfg h s) +
           (if isLongPressing (loop cfg h s) \<and>
               (\<exists>h \<in> set hs. MODE_SWITCH_PRESS_DURATION \<le> nowButton h - t)
            then 1 else 0) \<and>
         (currentMode (run cfg (loop cfg h s) hs) \<noteq> currentMode (loop cfg h s)) =
           (isLongPressing (loop cfg h s) \<and>
            (\<exists>h \<in> set hs. MODE_SWITCH_PRESS_DURATION \<le> nowButton h - t)) \<and>
         isLongPressing (run cfg (loop cfg h s) hs) =
           (isLongPressing (loop cfg h s) \<and>
            (\<forall>h \<in> set hs. nowButton h - t < MODE_SWITCH_PRESS_DURATION))"
    using Cons.prems(2) q v2 by (intro Cons.IH tick(1)) simp_all
  show ?case
  proof (cases "isLongPressing s \<and> MODE_SWITCH_PRESS_DURATION \<le> nowButton h - t")
    case True
    then have l: "\<not> isLongPressing (loop cfg h s)"
      using tick(5) by (simp add: not_le [symmetric])
    have m: "currentMode (loop cfg h s) \<noteq> currentMode s"
      using md True Cons.prems(3) by simp
    have c: "cnt EvModeSwitch (loop cfg h s) = cnt EvModeSwitch s + 1"
      using tick(4) True Cons.prems(3) by simp
    show ?thesis
      unfolding eq using ih l m c True by (auto simp add: not_le [symmetric])
  next
    case False
    then have l: "isLongPressing (loop cfg h s) = isLongPressing s"
      using tick(5) by (auto simp add: not_le [symmetric])
    have m: "currentMode (loop cfg h s) = currentMode s"
      using md False by auto
    have c: "cnt EvModeSwitch (loop cfg h s) = cnt EvModeSwitch s"
      using tick(4) False by auto
    show ?thesis
      unfolding eq using ih False by (auto simp add: l m c not_le [symmetric])
  qed
qed

lemma held_run_mode_early:
  assumes "held t s"
    and "\<forall>h \<in> set hs. \<not> button h \<and> nowButton h - t < MODE_SWITCH_PRESS_DURATION"
  shows "currentMode (run cfg s hs) = currentMode s"
  using assms
proof (induction hs arbitrary: s)
  case Nil
  then show ?case by simp
next
  case (Cons h hs)
  have b: "\<not> button h" and e3: "nowButton h - t < MODE_SWITCH_PRESS_DURATION"
    using Cons.prems(2) by simp_all
  have e: "nowButton h - t < SLEEP_PRESS_DURATION"
    using e3 by (simp add: word_less_nat_alt)
  have awake: "\<not> asleep s"
    using Cons.prems(1) by (simp add: held_def)
  note tick = held_tick [OF Cons.prems(1) b e, of cfg]
  have m: "currentMode (loop cfg h s) = currentMode s"
    using held_tick_mode [OF Cons.prems(1) b e, of cfg] e3 by (auto simp add: not_le [symmetric])
  have "currentMode (run cfg (loop cfg h s) hs) = currentMode (loop cfg h s)"
    using Cons.prems(2) by (intro Cons.IH tick(1)) simp
  then show ?case
    using awake m by simp
qed

lemma sleep_tick_events:
  assumes "held t s" and "\<not> button i" and "SLEEP_PRESS_DURATION \<le> nowButton i - t"
  shows "events (loop cfg i s) = events s @ [EvSleep, EvSleepFade, EvStopSong, EvSensorDisable]"
    and "currentMode (loop cfg i s) = currentMode s"
  by (simp_all add: sleep_tick [OF assms] enterDeepSleep_def prepareForSleep_def emit_def)

lemma release_sensing:
  assumes "held t s" and "button i"
    and "nowButton i - t < MODE_SWITCH_PRESS_DURATION" and "\<not> volumeAdjustedWhilePressed s"
  shows "isColorDetectionEnabled (handleInput cfg i s) = (\<not> isColorDetectionEnabled s)"
proof -
  have l: "\<not> lastButtonState s" and b: "buttonPressStartTime s = t"
    using assms(1) by (simp_all add: held_def)
  have "isColorDetectionEnabled (handleButton cfg i s) = (\<not> isColorDetectionEnabled s)"
    using assms(2,3,4) l b
    by (simp add: handleButton_def Let_def emit_def resetAllPainterCollections_def
        checkColorAndPlayAudio_def checkColor_sensing)
  then show ?thesis
    by (simp add: handleInput_mode)
qed

subsection \<open>C1: a hold that reaches the sleep threshold\<close>

text \<open>
  Claim C1, as the code has it. A hold starts at the press tick \<open>p\<close>, is sampled at the
  ticks \<open>hs\<close> before the sleep threshold and at the tick \<open>z\<close> at or beyond it (5000 ms).
  Then the sleep sequence is entered exactly once, at \<open>z\<close>: its calls are the last ones
  made, and it is terminal, no later tick changes the device. The detection toggle does
  not fire during the hold. The mode switch fires at most once during the hold. It does
  not fire, and the mode is kept, when no tick samples the button between 3000 ms and
  the sleep threshold. It fires exactly once, and the mode is the other one, when a tick
  samples the button in that interval and no volume adjustment is made during the hold.
\<close>

theorem sleep_hold:
  assumes "\<not> asleep s" and "lastButtonState s"
    and "\<not> button p"
    and "\<forall>h \<in> set hs. \<not> button h \<and> nowButton h - nowButton p < SLEEP_PRESS_DURATION"
    and "\<not> button z" and "SLEEP_PRESS_DURATION \<le> nowButton z - nowButton p"
  shows "asleep (run cfg s (p # hs @ [z])) \<and>
         cnt EvSleep (run cfg s (p # hs @ [z])) = cnt EvSleep s + 1 \<and>
         cnt EvToggle (run cfg s (p # hs @ [z])) = cnt EvToggle s \<and>
         cnt EvModeSwitch (run cfg s (p # hs @ [z])) \<le> cnt EvModeSwitch s + 1 \<and>
         ((\<forall>h \<in> set hs. nowButton h - nowButton p < MODE_SWITCH_PRESS_DURATION) \<longrightarrow>
            cnt EvModeSwitch (run cfg s (p # hs @ [z])) = cnt EvModeSwitch s \<and>
            currentMode (run cfg s (p # hs @ [z])) = currentMode s) \<and>
         ((\<exists>h \<in> set hs. MODE_SWITCH_PRESS_DURATION \<le> nowButton h - nowButton p) \<and>
          cntVol (run cfg s (p # hs)) = cntVol s \<longrightarrow>
            cnt EvModeSwitch (run cfg s (p # hs @ [z])) = cnt EvModeSwitch s + 1 \<and>
            currentMode (run cfg s (p # hs @ [z])) \<noteq> currentMode s) \<and>
         events (run cfg s (p # hs @ [z])) =
           events (run cfg s (p # hs)) @ [EvSleep, EvSleepFade, EvStopSong, EvSensorDisable] \<and>
         run cfg (run cfg s (p # hs @ [z])) later = run cfg s (p # hs @ [z])"
proof -
  let ?t = "nowButton p"
  let ?s0 = "pressed ?t s"
  let ?x = "run cfg ?s0 (p # hs)"
  have h0: "held ?t ?s0"
    using assms(1) by (rule held_pressed)
  have a0: "\<not> asleep ?s0"
    using h0 by (simp add: held_def)
  have r1: "run cfg s (p # hs) = ?x"
    using assms(1,2,3) by (rule run_press)
  have same: "run cfg s (p # hs @ [z]) = run cfg ?x [z]"
  proof -
    have "run cfg s (p # hs @ [z]) = run cfg ?s0 (p # hs @ [z])"
      using assms(1) a0 loop_pressed [OF assms(3,2), of cfg] by simp
    also have "\<dots> = run cfg ?s0 ((p # hs) @ [z])" by simp
    also have "\<dots> = run cfg ?x [z]" by (rule run_append)
    finally show ?thesis .
  qed
  have all: "\<forall>h \<in> set (p # hs). \<not> button h \<and> nowButton h - ?t < SLEEP_PRESS_DURATION"
    using assms(3,4) by simp
  note x = held_run [OF h0 all, of cfg]
  have hx: "held ?t ?x" using x by simp
  have ax: "\<not> asleep ?x" using hx by (simp add: held_def)
  have fin: "run cfg ?x [z] = loop cfg z ?x"
    using ax by simp
  note zf = sleep_tick_facts [OF hx assms(5,6), of cfg]
  note ze = sleep_tick_events [OF hx assms(5,6), of cfg]
  have c0: "cnt e ?s0 = cnt e s" for e
    by (rule pressed_counts)
  have l0: "isLongPressing ?s0"
    by (rule pressed_counts)
  have m0: "currentMode ?s0 = currentMode s"
    by (simp add: pressed_def)
  have early: "cnt EvModeSwitch ?x = cnt EvModeSwitch s \<and> currentMode ?x = currentMode s"
    if "\<forall>h \<in> set hs. nowButton h - ?t < MODE_SWITCH_PRESS_DURATION"
  proof -
    have "\<forall>h \<in> set (p # hs). \<not> button h \<and> nowButton h - ?t < MODE_SWITCH_PRESS_DURATION"
      using that assms(3,4) by simp
    then have "currentMode ?x = currentMode ?s0"
      by (rule held_run_mode_early [OF h0])
    then show ?thesis
      using x that by (simp add: c0 m0 del: run.simps)
  qed
  have most: "cnt EvModeSwitch ?x \<le> cnt EvModeSwitch s + 1"
    using x l0 by (simp add: c0 split: if_splits)
  have fires: "cnt EvModeSwitch ?x = cnt EvModeSwitch s + 1 \<and> currentMode ?x \<noteq> currentMode s"
    if "\<exists>h \<in> set hs. MODE_SWITCH_PRESS_DURATION \<le> nowButton h - ?t"
      and "cntVol (run cfg s (p # hs)) = cntVol s"
  proof -
    have v: "cntVol ?x = cntVol ?s0"
      using that(2) unfolding r1 by (simp add: pressed_counts del: run.simps)
    have f0: "\<not> volumeAdjustedWhilePressed ?s0"
      by (rule pressed_counts)
    have ex: "\<exists>h \<in> set (p # hs). MODE_SWITCH_PRESS_DURATION \<le> nowButton h - ?t"
      using that(1) by auto
    show ?thesis
      using held_run_quiet [OF h0 all f0 v] l0 ex by (simp add: c0 m0 del: run.simps)
  qed
  show ?thesis
    unfolding same r1 fin
    using zf ze x early most fires [unfolded r1] by (simp add: c0 run_asleep del: run.simps)
qed

lemma holdFiveSeconds_quiet:
  "cntVol (run demoConfig boot (butlast holdFiveSeconds)) = 0 \<and>
   currentMode (run demoConfig boot holdFiveSeconds) = PAINTER_COLLECTION \<and>
   currentMode (run demoConfig boot holdSampledLate) = COLOR_RECOGNITION"
  by code_simp

theorem sleep_hold_witness:
  "asleep (run demoConfig boot holdFiveSeconds) \<and>
   cnt EvSleep (run demoConfig boot holdFiveSeconds) = 1 \<and>
   cnt EvToggle (run demoConfig boot holdFiveSeconds) = 0 \<and>
   cnt EvModeSwitch (run demoConfig boot holdFiveSeconds) = 1 \<and>
   currentMode boot = COLOR_RECOGNITION \<and>
   currentMode (run demoConfig boot holdFiveSeconds) = PAINTER_COLLECTION \<and>
   cnt EvModeSwitch (run demoConfig boot holdSampledLate) = 0 \<and>
   currentMode (run demoConfig boot holdSampledLate) = COLOR_RECOGNITION \<and>
   events (run demoConfig boot holdFiveSeconds) =
     events (run demoConfig boot (butlast holdFiveSeconds)) @
     [EvSleep, EvSleepFade, EvStopSong, EvSensorDisable] \<and>
   run demoConfig (run demoConfig boot holdFiveSeconds) [tick True True True 6000] =
     run demoConfig boot holdFiveSeconds"
proof -
  have s: "\<not> asleep boot" "lastButtonState boot"
    by (simp_all add: boot_def)
  have p: "\<not> button (tick False True True 0)"
    by (simp add: tick_def)
  have z: "\<not> button (tick False True True 5000)"
    "SLEEP_PRESS_DURATION \<le> nowButton (tick False True True 5000) - nowButton (tick False True True 0)"
    by (simp_all add: tick_def)
  have h1: "\<forall>h \<in> set [tick False True True 1000, tick False True True 2000,
                        tick False True True 3000, tick False True True 4000].
              \<not> button h \<and> nowButton h - nowButton (tick False True True 0) < SLEEP_PRESS_DURATION"
    by (simp add: tick_def)
  have x1: "\<exists>h \<in> set [tick False True True 1000, tick False True True 2000,
                        tick False True True 3000, tick False True True 4000].
              MODE_SWITCH_PRESS_DURATION \<le> nowButton h - nowButton (tick False True True 0)"
    by (simp add: tick_def)
  have h2: "\<forall>h \<in> set [tick False True True 1000, tick False True True 2000].
              \<not> button h \<and> nowButton h - nowButton (tick False True True 0) < SLEEP_PRESS_DURATION"
    by (simp add: tick_def)
  have e2: "\<forall>h \<in> set [tick False True True 1000, tick False True True 2000].
              nowButton h - nowButton (tick False True True 0) < MODE_SWITCH_PRESS_DURATION"
    by (simp add: tick_def)
  have l1: "holdFiveSeconds = tick False True True 0 #
              [tick False True True 1000, tick False True True 2000,
               tick False True True 3000, tick False True True 4000] @
              [tick False True True 5000]"
    by (simp add: holdFiveSeconds_def)
  have b1: "butlast holdFiveSeconds = tick False True True 0 #
              [tick False True True 1000, tick False True True 2000,
               tick False True True 3000, tick False True True 4000]"
    by (simp add: holdFiveSeconds_def)
  have l2: "holdSampledLate = tick False True True 0 #
              [tick False True True 1000, tick False True True 2000] @
              [tick False True True 5000]"
    by (simp add: holdSampledLate_def)
  have c: "cnt e boot = 0" for e
    by (simp add: cnt_def boot_def)
  have v: "cntVol boot = 0" and m: "currentMode boot = COLOR_RECOGNITION"
    by (simp_all add: cntVol_def boot_def)
  note a = sleep_hold [OF s p h1 z, of demoConfig "[tick True True True 6000]", folded l1 b1]
  note b = sleep_hold [OF s p h2 z, of demoConfig "[]", folded l2]
  have cv: "cntVol (run demoConfig boot (butlast holdFiveSeconds)) = cntVol boot"
    using holdFiveSeconds_quiet v by simp
  have fire: "cnt EvModeSwitch (run demoConfig boot holdFiveSeconds) = cnt EvModeSwitch boot + 1"
    using a x1 cv by blast
  have none: "cnt EvModeSwitch (run demoConfig boot holdSampledLate) = cnt EvModeSwitch boot"
    using b e2 by blast
  have rest: "asleep (run demoConfig boot holdFiveSeconds) \<and>
      cnt EvSleep (run demoConfig boot holdFiveSeconds) = cnt EvSleep boot + 1 \<and>
      cnt EvToggle (run demoConfig boot holdFiveSeconds) = cnt EvToggle boot \<and>
      events (run demoConfig boot holdFiveSeconds) =
        events (run demoConfig boot (butlast holdFiveSeconds)) @
        [EvSleep, EvSleepFade, EvStopSong, EvSensorDisable] \<and>
      run demoConfig (run demoConfig boot holdFiveSeconds) [tick True True True 6000] =
        run demoConfig boot holdFiveSeconds"
    using a by blast
  show ?thesis
    using rest fire none holdFiveSeconds_quiet unfolding c m by (simp del: run.simps)
qed

text \<open>
  Claim C1 as stated fails for the mode switch: a hold sampled once a second fires the
  mode switch at 3000 ms and the sleep sequence at 5000 ms.
\<close>

theorem mode_switch_before_sleep:
  "map button holdFiveSeconds = [False, False, False, False, False, False] \<and>
   nowButton (last holdFiveSeconds) - nowButton (hd holdFiveSeconds) = 5000 \<and>
   intents (run demoConfig boot holdFiveSeconds) = [EvModeSwitch, EvSleep]"
proof -
  have "intents (run demoConfig boot holdFiveSeconds) = [EvModeSwitch, EvSleep]"
    by code_simp
  then show ?thesis
    by (simp add: holdFiveSeconds_def tick_def)
qed

subsection \<open>C6: a hold with a volume adjustment\<close>




subsection \<open>C10: rotating at the volume boundary\<close>

lemma held_tick_boundary:
  assumes "held t s" and "\<not> button i" and "nowButton i - t < SLEEP_PRESS_DURATION"
    and "atBoundary (currentVolume s) (decodeDir (lastEncoded s) (readEncoded i))"
  shows "currentVolume (loop cfg i s) = currentVolume s"
    and "volumeAdjustedWhilePressed (loop cfg i s) = volumeAdjustedWhilePressed s"
    and "cntVol (loop cfg i s) = cntVol s"
proof -
  note core = held_loop_core [OF assms(1-3), of cfg]
  note hb = held_handleButton_facts [OF assms(1-3), of cfg]
  have pr: "isEncoderPressed (handleButton cfg i s)"
    using hb(1) by (simp add: held_def)
  have bd: "0 < decodeDir (lastEncoded (handleButton cfg i s)) (readEncoded i) \<longrightarrow>
              currentVolume (handleButton cfg i s) \<le> MIN_VOLUME"
    "decodeDir (lastEncoded (handleButton cfg i s)) (readEncoded i) < 0 \<longrightarrow>
              MAX_VOLUME \<le> currentVolume (handleButton cfg i s)"
    using assms(4) by (simp_all add: atBoundary_def handleButton_encoder_fields)
  note he = handleEncoder_boundary [OF pr bd]
  show "currentVolume (loop cfg i s) = currentVolume s"
    using inputCoreD(8) [OF core] he(1) by (simp add: handleButton_encoder_fields)
  show "volumeAdjustedWhilePressed (loop cfg i s) = volumeAdjustedWhilePressed s"
    using inputCoreD(7) [OF core] he(2) hb(6) by simp
  show "cntVol (loop cfg i s) = cntVol s"
    using inputCore_cntVol [OF core] he(3) by (simp add: handleButton_cntVol)
qed

lemma boundary_run:
  assumes "held t s"
    and "\<forall>h \<in> set hs. \<not> button h \<and> nowButton h - t < SLEEP_PRESS_DURATION"
    and "\<forall>d \<in> set (dirs (lastEncoded s) hs). atBoundary (currentVolume s) d"
  shows "currentVolume (run cfg s hs) = currentVolume s \<and>
         volumeAdjustedWhilePressed (run cfg s hs) = volumeAdjustedWhilePressed s \<and>
         cntVol (run cfg s hs) = cntVol s"
  using assms
proof (induction hs arbitrary: s)
  case Nil
  then show ?case by simp
next
  case (Cons h hs)
  have b: "\<not> button h" and e: "nowButton h - t < SLEEP_PRESS_DURATION"
    using Cons.prems(2) by simp_all
  have d: "atBoundary (currentVolume s) (decodeDir (lastEncoded s) (readEncoded h))"
    using Cons.prems(3) by simp
  note tick = held_tick [OF Cons.prems(1) b e, of cfg]
  note bd = held_tick_boundary [OF Cons.prems(1) b e d, of cfg]
  have awake: "\<not> asleep s"
    using Cons.prems(1) by (simp add: held_def)
  have rest: "\<forall>d \<in> set (dirs (lastEncoded (loop cfg h s)) hs).
                atBoundary (currentVolume (loop cfg h s)) d"
    using Cons.prems(3) by (simp add: tick(6) bd(1))
  have "currentVolume (run cfg (loop cfg h s) hs) = currentVolume (loop cfg h s) \<and>
        volumeAdjustedWhilePressed (run cfg (loop cfg h s) hs) =
          volumeAdjustedWhilePressed (loop cfg h s) \<and>
        cntVol (run cfg (loop cfg h s) hs) = cntVol (loop cfg h s)"
    using Cons.prems(2) rest by (intro Cons.IH tick(1)) simp_all
  then show ?case
    using awake bd by simp
qed

text \<open>
  Claim C10. Take a hold (press tick \<open>p\<close>, held ticks \<open>hs\<close>, release tick \<open>r\<close>)
  that stays below the mode-switch threshold, in which every direction decoded while
  pressed finds the volume at its boundary (0 for a clockwise, decreasing rotation; 21
  for a counter-clockwise, increasing one). Then the volume is unchanged, no volume
  adjustment is made, the volume-adjusted flag is not set, and the release fires the
  detection toggle exactly once: the input handlers of the release tick leave
  \<^verbatim>\<open>isColorDetectionEnabled\<close> the opposite of what it was before that tick. The mode
  switch does not fire and the mode is kept.
\<close>

theorem boundary_rotation_keeps_toggle:
  assumes "\<not> asleep s" and "lastButtonState s"
    and "\<not> button p"
    and "\<forall>h \<in> set hs. \<not> button h \<and> nowButton h - nowButton p < MODE_SWITCH_PRESS_DURATION"
    and "button r" and "nowButton r - nowButton p < MODE_SWITCH_PRESS_DURATION"
    and "\<forall>d \<in> set (dirs (lastEncoded s) (p # hs)). atBoundary (currentVolume s) d"
  shows "currentVolume (run cfg s (p # hs)) = currentVolume s \<and>
         cntVol (run cfg s (p # hs)) = cntVol s \<and>
         \<not> volumeAdjustedWhilePressed (run cfg s (p # hs)) \<and>
         cnt EvToggle (run cfg s (p # hs @ [r])) = cnt EvToggle s + 1 \<and>
         cnt EvModeSwitch (run cfg s (p # hs @ [r])) = cnt EvModeSwitch s \<and>
         isColorDetectionEnabled (handleInput cfg r (run cfg s (p # hs))) =
           (\<not> isColorDetectionEnabled (run cfg s (p # hs))) \<and>
         currentMode (run cfg s (p # hs @ [r])) = currentMode s"
proof -
  let ?t = "nowButton p"
  let ?s0 = "pressed ?t s"
  let ?x = "run cfg ?s0 (p # hs)"
  have h0: "held ?t ?s0"
    using assms(1) by (rule held_pressed)
  have r1: "run cfg s (p # hs) = ?x"
    using assms(1,2,3) by (rule run_press)
  have "run cfg s (p # hs @ [r]) = run cfg ?s0 (p # hs @ [r])"
    using assms(1,2,3) by (rule run_press)
  also have "\<dots> = run cfg ?s0 ((p # hs) @ [r])" by simp
  also have "\<dots> = run cfg ?x [r]" by (rule run_append)
  finally have whole: "run cfg s (p # hs @ [r]) = run cfg ?x [r]" .
  have short: "\<forall>h \<in> set (p # hs). nowButton h - ?t < MODE_SWITCH_PRESS_DURATION"
    using assms(4) by simp
  have all: "\<forall>h \<in> set (p # hs). \<not> button h \<and> nowButton h - ?t < SLEEP_PRESS_DURATION"
  proof
    fix h assume h: "h \<in> set (p # hs)"
    then have "nowButton h - ?t < MODE_SWITCH_PRESS_DURATION"
      using short by blast
    then have "nowButton h - ?t < SLEEP_PRESS_DURATION"
      by (simp add: word_less_nat_alt)
    then show "\<not> button h \<and> nowButton h - ?t < SLEEP_PRESS_DURATION"
      using assms(3,4) h by auto
  qed
  have all3: "\<forall>h \<in> set (p # hs). \<not> button h \<and> nowButton h - ?t < MODE_SWITCH_PRESS_DURATION"
    using assms(3,4) by simp
  have bd: "\<forall>d \<in> set (dirs (lastEncoded ?s0) (p # hs)). atBoundary (currentVolume ?s0) d"
    using assms(7) by (simp add: pressed_counts del: dirs.simps)
  note x = boundary_run [OF h0 all bd, of cfg]
  note y = held_run [OF h0 all, of cfg]
  have hx: "held ?t ?x" using y by blast
  have ax: "\<not> asleep ?x" using hx by (simp add: held_def)
  have fx: "\<not> volumeAdjustedWhilePressed ?x"
    using x pressed_counts(4) [of ?t s] by blast
  have tx: "cnt EvToggle ?x = cnt EvToggle s" and mx: "cnt EvModeSwitch ?x = cnt EvModeSwitch s"
    using y short by (simp_all add: pressed_counts del: run.simps)
  have fin: "run cfg ?x [r] = loop cfg r ?x"
    using ax by simp
  have vol: "currentVolume ?x = currentVolume s" "cntVol ?x = cntVol s"
    using x by (simp_all add: pressed_counts del: run.simps)
  have flip: "isColorDetectionEnabled (handleInput cfg r ?x) = (\<not> isColorDetectionEnabled ?x)"
    using hx assms(5,6) fx by (rule release_sensing)
  have "currentMode ?x = currentMode ?s0"
    using h0 all3 by (rule held_run_mode_early)
  then have mo: "currentMode ?x = currentMode s"
    by (simp add: pressed_def del: run.simps)
  have lx: "\<not> lastButtonState ?x"
    using hx by (simp add: held_def)
  have "currentMode (handleButton cfg r ?x) = currentMode ?x"
    using assms(5) lx
    by (simp add: handleButton_def Let_def emit_def resetAllPainterCollections_def
        checkColorAndPlayAudio_def checkColor_mode del: run.simps)
  then have mr: "currentMode (loop cfg r ?x) = currentMode s"
    using mo by (simp add: loop_mode del: run.simps)
  show ?thesis
    unfolding whole r1 fin
    using release_tick(1,2) [OF hx assms(5), of cfg] assms(6) fx tx mx vol flip mr
    by (simp del: run.simps)
qed

lemma turnUpAtMaximum_sensing:
  "\<not> isColorDetectionEnabled (run demoConfig loudest (butlast turnUpAtMaximum)) \<and>
   isColorDetectionEnabled (run demoConfig loudest turnUpAtMaximum)"
  by code_simp

theorem boundary_rotation_keeps_toggle_witness:
  "dirs (lastEncoded loudest) (butlast turnUpAtMaximum) = [- 1, - 1, - 1] \<and>
   currentVolume loudest = MAX_VOLUME \<and>
   currentVolume (run demoConfig loudest (butlast turnUpAtMaximum)) = MAX_VOLUME \<and>
   cntVol (run demoConfig loudest (butlast turnUpAtMaximum)) = 0 \<and>
   cnt EvToggle (run demoConfig loudest turnUpAtMaximum) = 1 \<and>
   \<not> isColorDetectionEnabled (run demoConfig loudest (butlast turnUpAtMaximum)) \<and>
   isColorDetectionEnabled (handleInput demoConfig (last turnUpAtMaximum)
     (run demoConfig loudest (butlast turnUpAtMaximum))) \<and>
   isColorDetectionEnabled (run demoConfig loudest turnUpAtMaximum)"
proof -
  have l: "turnUpAtMaximum = tick False False True 0 #
             [tick False True True 100, tick False True False 200] @ [tick True True False 300]"
    by (simp add: turnUpAtMaximum_def)
  have b: "butlast turnUpAtMaximum = tick False False True 0 #
             [tick False True True 100, tick False True False 200]"
    by (simp add: turnUpAtMaximum_def)
  have la: "last turnUpAtMaximum = tick True True False 300"
    by (simp add: turnUpAtMaximum_def)
  have d: "dirs (lastEncoded loudest) (butlast turnUpAtMaximum) = [- 1, - 1, - 1]"
    by code_simp
  have s: "\<not> asleep loudest" "lastButtonState loudest"
    by (simp_all add: loudest_def boot_def)
  have p: "\<not> button (tick False False True 0)"
    by (simp add: tick_def)
  have h: "\<forall>h \<in> set [tick False True True 100, tick False True False 200].
       \<not> button h \<and>
       nowButton h - nowButton (tick False False True 0) < MODE_SWITCH_PRESS_DURATION"
    by (simp add: tick_def)
  have r: "button (tick True True False 300)"
    "nowButton (tick True True False 300) - nowButton (tick False False True 0) <
       MODE_SWITCH_PRESS_DURATION"
    by (simp_all add: tick_def)
  have "\<forall>d \<in> set (dirs (lastEncoded loudest) (butlast turnUpAtMaximum)).
       atBoundary (currentVolume loudest) d"
    unfolding d by (simp add: loudest_def atBoundary_def)
  then have bd: "\<forall>d \<in> set (dirs (lastEncoded loudest)
        (tick False False True 0 # [tick False True True 100, tick False True False 200])).
       atBoundary (currentVolume loudest) d"
    unfolding b .
  have e: "cnt EvToggle loudest = 0" "cntVol loudest = 0" "currentVolume loudest = 21"
    by (simp_all add: cnt_def cntVol_def loudest_def boot_def)
  note a = boundary_rotation_keeps_toggle [OF s p h r bd, of demoConfig, folded l b la]
  show ?thesis
    using a d turnUpAtMaximum_sensing unfolding e by (simp del: run.simps dirs.simps)
qed

subsection \<open>C2: confirmation of a rotation\<close>

lemma lastNonzero_Nil: "lastNonzero [] = 0"
  by (simp add: lastNonzero_def)

lemma lastNonzero_Cons:
  "lastNonzero (d # ds) = (if lastNonzero ds = 0 then d else lastNonzero ds)"
proof -
  show ?thesis
  proof (cases "filter (\<lambda>d. d \<noteq> 0) ds")
    case Nil
    then show ?thesis by (simp add: lastNonzero_def)
  next
    case (Cons x xs)
    have "last (x # xs) \<in> set (filter (\<lambda>d. d \<noteq> 0) ds)"
      using Cons last_in_set [of "x # xs"] by simp
    then have "last (x # xs) \<noteq> 0" by simp
    then show ?thesis using Cons by (simp add: lastNonzero_def)
  qed
qed

lemma loop_awake:
  "\<not> asleep (loop cfg i s) \<Longrightarrow> \<not> asleep (handleButton cfg i s)"
  using loop_asleep [of cfg i s] by auto

lemma tick_encoder:
  assumes "\<not> asleep (loop cfg i s)"
  shows "lastDir (loop cfg i s) =
           (if decodeDir (lastEncoded s) (readEncoded i) \<noteq> 0
            then decodeDir (lastEncoded s) (readEncoded i) else lastDir s)"
    and "lastEncoded (loop cfg i s) = readEncoded i"
proof -
  note core = loop_core [OF loop_awake [OF assms]]
  show "lastDir (loop cfg i s) =
           (if decodeDir (lastEncoded s) (readEncoded i) \<noteq> 0
            then decodeDir (lastEncoded s) (readEncoded i) else lastDir s)"
    using inputCoreD(10) [OF core]
    by (simp add: handleEncoder_lastDir handleButton_encoder_fields)
  show "lastEncoded (loop cfg i s) = readEncoded i"
    using inputCoreD(9) [OF core] by (simp add: handleEncoder_lastEncoded)
qed

lemma handleButton_rotations: "rotations (handleButton cfg i s) = rotations s"
  by (simp add: rotations_def handleButton_encoder_fields)

lemma tick_rotation:
  assumes "rotations (loop cfg i s) \<noteq> rotations s"
  shows "decodeDir (lastEncoded s) (readEncoded i) = lastDir s \<and> lastDir s \<noteq> 0"
proof (cases "asleep (handleButton cfg i s)")
  case True
  then show ?thesis
    using assms loop_asleep [OF True] by (simp add: handleButton_rotations)
next
  case False
  have "rotations (handleEncoder i (handleButton cfg i s)) \<noteq> rotations (handleButton cfg i s)"
    using assms inputCore_rotations [OF loop_core [OF False]]
    by (simp add: handleButton_rotations)
  then show ?thesis
    using handleEncoder_rotation_only_confirmed [of i "handleButton cfg i s"]
    by (simp add: handleButton_encoder_fields)
qed

lemma run_encoder:
  assumes "\<not> asleep (run cfg s ticks)"
  shows "lastDir (run cfg s ticks) =
           (if lastNonzero (dirs (lastEncoded s) ticks) = 0 then lastDir s
            else lastNonzero (dirs (lastEncoded s) ticks)) \<and>
         lastEncoded (run cfg s ticks) =
           (if ticks = [] then lastEncoded s else readEncoded (last ticks))"
  using assms
proof (induction ticks arbitrary: s)
  case Nil
  then show ?case by (simp add: lastNonzero_def)
next
  case (Cons i rest)
  have awake: "\<not> asleep s"
    using Cons.prems by (auto simp add: run_asleep)
  then have r: "run cfg s (i # rest) = run cfg (loop cfg i s) rest"
    by simp
  have a1: "\<not> asleep (loop cfg i s)"
    using Cons.prems r run_asleep [of "loop cfg i s" cfg rest] by auto
  note t = tick_encoder [OF a1]
  have ih: "lastDir (run cfg (loop cfg i s) rest) =
           (if lastNonzero (dirs (lastEncoded (loop cfg i s)) rest) = 0
            then lastDir (loop cfg i s)
            else lastNonzero (dirs (lastEncoded (loop cfg i s)) rest)) \<and>
         lastEncoded (run cfg (loop cfg i s) rest) =
           (if rest = [] then lastEncoded (loop cfg i s) else readEncoded (last rest))"
    using Cons.prems r by (intro Cons.IH) simp
  show ?case
    unfolding r using ih t by (simp add: lastNonzero_Cons lastNonzero_Nil)
qed

lemma handleEncoder_direction_change:
  assumes "decodeDir (lastEncoded s) (readEncoded i) \<noteq> 0"
    and "decodeDir (lastEncoded s) (readEncoded i) \<noteq> lastDir s"
  shows "handleEncoder i s =
           s\<lparr>lastEncoded := readEncoded i,
             lastDir := decodeDir (lastEncoded s) (readEncoded i), validRotations := 2\<rparr>"
  using assms by (simp add: handleEncoder_def Let_def)

lemma handleEncoder_accepts_track:
  assumes "decodeDir (lastEncoded s) (readEncoded i) = lastDir s" and "lastDir s \<noteq> 0"
    and "0 \<le> validRotations s" and "\<not> isEncoderPressed s"
    and "TRACK_NAVIGATION_DEBOUNCE < nowEncoder i - lastTrackNavigationTime s"
    and "\<not> isColorDetectionEnabled s"
  shows "rotations (handleEncoder i s) =
           rotations s @ [EvTrackDelta (if 0 < lastDir s then 1 else - 1)]"
  using assms by (simp add: he_defs rotations_def)

lemma handleEncoder_accepts_volume:
  assumes "decodeDir (lastEncoded s) (readEncoded i) = lastDir s" and "lastDir s \<noteq> 0"
    and "0 \<le> validRotations s" and "isEncoderPressed s"
    and "ROTATION_DEBOUNCE < nowEncoder i - lastRotationTime s"
    and "\<not> atBoundary (currentVolume s) (lastDir s)"
  shows "rotations (handleEncoder i s) =
           rotations s @
           [EvSetVolume (if 0 < lastDir s then currentVolume s - VOLUME_STEP
                         else currentVolume s + VOLUME_STEP)]"
  using assms by (auto simp add: he_defs rotations_def atBoundary_def)

text \<open>
  Claim C2, as the code has it. On a run from a state with no direction stored (as at
  boot), a tick emits a rotation intent (a volume adjustment or a track navigation) only
  if it decodes a direction that is not 0 and equals the direction of the most recent
  earlier tick that decoded one; ticks that decode no transition in between do not
  count, so the two readings need not be on consecutive ticks, and the first transition
  decoded since boot emits nothing. A reading whose direction differs from the stored one
  emits nothing, stores the new direction and sets the count to 2; the next reading in
  the stored direction is accepted: released, it navigates a track (past the debounce
  time, sensing off); pressed, it adjusts the volume (past the debounce time, volume not
  at its boundary).
\<close>

theorem rotation_needs_confirmation:
  assumes "lastDir s = 0" and "\<not> asleep (run cfg s ticks)"
  shows
    "(rotations (loop cfg i (run cfg s ticks)) \<noteq> rotations (run cfg s ticks) \<longrightarrow>
        decodeDir (lastEncoded (run cfg s ticks)) (readEncoded i) \<noteq> 0 \<and>
        decodeDir (lastEncoded (run cfg s ticks)) (readEncoded i) =
          lastNonzero (dirs (lastEncoded s) ticks)) \<and>
     (decodeDir (lastEncoded y) (readEncoded j) \<noteq> 0 \<and>
      decodeDir (lastEncoded y) (readEncoded j) \<noteq> lastDir y \<longrightarrow>
        rotations (handleEncoder j y) = rotations y \<and>
        lastDir (handleEncoder j y) = decodeDir (lastEncoded y) (readEncoded j) \<and>
        validRotations (handleEncoder j y) = 2) \<and>
     (decodeDir (lastEncoded y) (readEncoded j) = lastDir y \<and> lastDir y \<noteq> 0 \<and>
      0 \<le> validRotations y \<longrightarrow>
        (\<not> isEncoderPressed y \<and>
         TRACK_NAVIGATION_DEBOUNCE < nowEncoder j - lastTrackNavigationTime y \<and>
         \<not> isColorDetectionEnabled y \<longrightarrow>
           rotations (handleEncoder j y) =
             rotations y @ [EvTrackDelta (if 0 < lastDir y then 1 else - 1)]) \<and>
        (isEncoderPressed y \<and> ROTATION_DEBOUNCE < nowEncoder j - lastRotationTime y \<and>
         \<not> atBoundary (currentVolume y) (lastDir y) \<longrightarrow>
           rotations (handleEncoder j y) =
             rotations y @
             [EvSetVolume (if 0 < lastDir y then currentVolume y - VOLUME_STEP
                           else currentVolume y + VOLUME_STEP)]))"
proof -
  have ld: "lastDir (run cfg s ticks) = lastNonzero (dirs (lastEncoded s) ticks)"
    using run_encoder [OF assms(2)] assms(1) by simp
  have one: "decodeDir (lastEncoded (run cfg s ticks)) (readEncoded i) \<noteq> 0 \<and>
        decodeDir (lastEncoded (run cfg s ticks)) (readEncoded i) =
          lastNonzero (dirs (lastEncoded s) ticks)"
    if "rotations (loop cfg i (run cfg s ticks)) \<noteq> rotations (run cfg s ticks)"
    using tick_rotation [OF that] ld by simp
  have two: "rotations (handleEncoder j y) = rotations y \<and>
        lastDir (handleEncoder j y) = decodeDir (lastEncoded y) (readEncoded j) \<and>
        validRotations (handleEncoder j y) = 2"
    if "decodeDir (lastEncoded y) (readEncoded j) \<noteq> 0"
      and "decodeDir (lastEncoded y) (readEncoded j) \<noteq> lastDir y"
    by (simp add: handleEncoder_direction_change [OF that] rotations_def)
  show ?thesis
    using one two handleEncoder_accepts_track [of y j] handleEncoder_accepts_volume [of y j]
    by blast
qed

theorem rotation_needs_confirmation_witness:
  "lastDir boot = 0 \<and> \<not> asleep (run demoConfig boot (butlast turnWithPause)) \<and>
   rotations (loop demoConfig (last turnWithPause) (run demoConfig boot (butlast turnWithPause))) \<noteq>
     rotations (run demoConfig boot (butlast turnWithPause)) \<and>
   decodeDir (lastEncoded (run demoConfig boot (butlast turnWithPause)))
     (readEncoded (last turnWithPause)) = 1 \<and>
   lastNonzero (dirs (lastEncoded boot) (butlast turnWithPause)) = 1"
proof -
  have s: "lastDir boot = 0"
    by (simp add: boot_def)
  have a: "\<not> asleep (run demoConfig boot (butlast turnWithPause))"
    by code_simp
  have r: "rotations (loop demoConfig (last turnWithPause)
             (run demoConfig boot (butlast turnWithPause))) \<noteq>
           rotations (run demoConfig boot (butlast turnWithPause))"
    by code_simp
  have n: "lastNonzero (dirs (lastEncoded boot) (butlast turnWithPause)) = 1"
    by code_simp
  show ?thesis
    using rotation_needs_confirmation [OF s a, of "last turnWithPause" boot
        "last turnWithPause"] r n s a
    by (simp del: run.simps dirs.simps)
qed

text \<open>
  Claim C2 as stated fails on consecutive ticks: one clockwise transition, then a tick
  with no transition, then a single clockwise transition, which emits a track
  navigation although the tick before it reported no direction.
\<close>

theorem rotation_after_idle_tick:
  "dirs (lastEncoded boot) turnWithPause = [1, 0, 1] \<and>
   rotations (run demoConfig boot (butlast turnWithPause)) = [] \<and>
   rotations (run demoConfig boot turnWithPause) = [EvTrackDelta 1]"
  by code_simp

end
